theory Spec2Isabelle
  imports Complex_Main "HOL-Library.Word"
begin

unbundle bit_operations_syntax

section \<open>JavaScript values\<close>

text \<open>
  A JavaScript string is a sequence of UTF-16 code units. String literals of the source
  are written \<open>str ''...''\<close>.
\<close>

type_synonym jsstring = "nat list"

definition str :: "string \<Rightarrow> jsstring" where
  "str s = map of_char s"

type_synonym byte = "8 word"

text \<open>
  The values stored in events. Numbers are the integers of MIDI data (\<open>JNum\<close>); the two
  non-integer numbers the parser can produce are the frame rate literal \<open>29.97\<close>
  (\<open>JFrac\<close>) and \<open>Math.round(60000000 / 0)\<close> (\<open>JInfinity\<close>). \<open>JBytes\<close> is a
  \<open>Uint8Array\<close>, \<open>JArr\<close> an array, \<open>JObj\<close> an object literal with its properties in
  insertion order.
\<close>

datatype jsval =
    JUndefined
  | JNum int
  | JFrac rat
  | JInfinity
  | JStr jsstring
  | JBytes "byte list"
  | JArr "jsval list"
  | JObj "(string \<times> jsval) list"

text \<open>Every \<open>throw\<close> of the source, by the place that raises it.\<close>

datatype error =
    UnderflowError
  | RangeError
  | TypeError
  | InvalidStatusByte
  | InvalidDeltaTime
  | InvalidNoteValue
  | InvalidVelocityValue
  | InvalidController
  | InvalidProgramNumber
  | InvalidPressureAmount
  | InvalidPitchBend
  | InvalidSysEx
  | InvalidSongNumber
  | InvalidSequenceNumber
  | InvalidTextData
  | InvalidMetaData
  | InvalidTimeSignature
  | InvalidKeySignature
  | InvalidData
  | InvalidWriteEventData
  | InvalidNoteFormat
  | NoteOutOfRange
  | InvalidMidiValue

subsection \<open>32-bit integer operators\<close>

text \<open>
  The bitwise operators of JavaScript convert their operands to signed 32-bit integers
  and return one.
\<close>

definition ToInt32 :: "int \<Rightarrow> int" where
  "ToInt32 x = (x + 2 ^ 31) mod 2 ^ 32 - 2 ^ 31"

definition js_shl :: "int \<Rightarrow> nat \<Rightarrow> int" where
  "js_shl x k = ToInt32 (ToInt32 x * 2 ^ k)"

definition js_sar :: "int \<Rightarrow> nat \<Rightarrow> int" where
  "js_sar x k = ToInt32 x div 2 ^ k"

definition js_and :: "int \<Rightarrow> int \<Rightarrow> int" where
  "js_and x y = ToInt32 x AND ToInt32 y"

definition js_or :: "int \<Rightarrow> int \<Rightarrow> int" where
  "js_or x y = ToInt32 x OR ToInt32 y"

section \<open>DataBuffer\<close>

text \<open>
  The byte buffer with a cursor that \<open>AudioMIDI\<close> extends (\<open>src/demo/midi.js\<close>).
  \<open>data\<close> is the \<open>Uint8Array\<close> read from, \<open>buffer\<close> the plain array written to,
  \<open>writing\<close> is set by the constructor without input and cleared by \<open>commit\<close>.
\<close>

record DataBuffer =
  writing :: bool
  data :: "byte list"
  buffer :: "jsval list"
  offset :: int

definition remainingBytes :: "'a DataBuffer_scheme \<Rightarrow> int" where
  "remainingBytes b = int (length (data b)) - offset b"

definition available :: "'a DataBuffer_scheme \<Rightarrow> int \<Rightarrow> bool" where
  "available b bytes \<longleftrightarrow> writing b \<or> bytes \<le> remainingBytes b"

definition availableAt :: "'a DataBuffer_scheme \<Rightarrow> int \<Rightarrow> int \<Rightarrow> bool" where
  "availableAt b bytes off \<longleftrightarrow> writing b \<or> bytes \<le> int (length (data b)) - off"

definition advance :: "int \<Rightarrow> 'a DataBuffer_scheme \<Rightarrow> error + 'a DataBuffer_scheme" where
  "advance bytes b =
     (if \<not> available b bytes then Inl UnderflowError
      else Inr (b\<lparr>offset := offset b + bytes\<rparr>))"

definition rewind :: "int \<Rightarrow> 'a DataBuffer_scheme \<Rightarrow> error + 'a DataBuffer_scheme" where
  "rewind bytes b =
     (if bytes > offset b then Inl UnderflowError
      else Inr (b\<lparr>offset := offset b - bytes\<rparr>))"

text \<open>
  \<open>this.data[i]\<close> is \<open>undefined\<close> when \<open>i\<close> is outside the array. An index below 0 is
  reachable in \<open>parse\<close> after a text meta event with a negative declared length, and only
  by the reads of the delta time and of the status byte, which both treat \<open>undefined\<close>
  as they treat 0 (\<open>undefined & m\<close> is 0 and \<open>undefined >= 0x80\<close> is false). The
  model therefore returns 0 for such a read.
\<close>

definition data_at :: "'a DataBuffer_scheme \<Rightarrow> int \<Rightarrow> int" where
  "data_at b i =
     (if 0 \<le> i \<and> i < int (length (data b)) then uint (data b ! nat i) else 0)"

definition readUInt8 :: "'a DataBuffer_scheme \<Rightarrow> error + (int \<times> 'a DataBuffer_scheme)" where
  "readUInt8 b =
     (if \<not> available b 1 then Inl UnderflowError
      else Inr (data_at b (offset b), b\<lparr>offset := offset b + 1\<rparr>))"

definition peekUInt8 :: "'a DataBuffer_scheme \<Rightarrow> int \<Rightarrow> error + int" where
  "peekUInt8 b off =
     (if \<not> availableAt b 1 off then Inl UnderflowError else Inr (data_at b off))"

section \<open>Variable length values\<close>

text \<open>
  \<open>readVariableLengthValues\<close>: a do-while loop that reads one byte per round and goes on
  while the byte has its high bit set and bytes remain.
\<close>

function readVariableLengthValues_loop ::
  "int \<Rightarrow> 'a DataBuffer_scheme \<Rightarrow> error + (int \<times> 'a DataBuffer_scheme)" where
  "readVariableLengthValues_loop val b =
     (case readUInt8 b of
        Inl e \<Rightarrow> Inl e
      | Inr (byte, b') \<Rightarrow>
          (let val' = js_shl val 7 + js_and byte 0x7F in
           if js_and byte 0x80 \<noteq> 0 \<and> remainingBytes b' > 0
           then readVariableLengthValues_loop val' b'
           else Inr (val', b')))"
  by pat_completeness auto
termination
  by (relation "measure (\<lambda>(v, b). nat (remainingBytes b))")
     (auto simp: readUInt8_def remainingBytes_def split: if_splits)

definition readVariableLengthValues ::
  "'a DataBuffer_scheme \<Rightarrow> error + (int \<times> 'a DataBuffer_scheme)" where
  "readVariableLengthValues b = readVariableLengthValues_loop 0 b"

subsection \<open>Writing\<close>

text \<open>
  \<open>this.buffer[i] = v\<close> on a plain array: an index at or beyond the length extends the
  array (the holes read as \<open>undefined\<close>); a negative index sets a property and leaves
  the elements alone.
\<close>

definition array_set :: "jsval list \<Rightarrow> int \<Rightarrow> jsval \<Rightarrow> jsval list" where
  "array_set xs i v =
     (if i < 0 then xs
      else if nat i < length xs then xs[nat i := v]
      else xs @ replicate (nat i - length xs) JUndefined @ [v])"

definition writeUInt8 :: "jsval \<Rightarrow> 'a DataBuffer_scheme \<Rightarrow> 'a DataBuffer_scheme" where
  "writeUInt8 v b = b\<lparr>buffer := array_set (buffer b) (offset b) v, offset := offset b + 1\<rparr>"

text \<open>
  \<open>writeVariableLengthValue\<close>. The first loop pushes the 7-bit groups, least significant
  first, on a local array; the second pops them, setting the high bit on all but the last
  one written. \<open>Math.round\<close> is the identity on the integers of the model.
\<close>

function vlv_groups :: "int \<Rightarrow> int list" where
  "vlv_groups v =
     js_and v 0x7F # (let v' = js_sar v 7 in if v' > 0 then vlv_groups v' else [])"
  by pat_completeness auto

lemma ToInt32_range: "- (2 ^ 31) \<le> ToInt32 x \<and> ToInt32 x < 2 ^ 31"
proof -
  have "0 \<le> (x + 2 ^ 31) mod (2 ^ 32 :: int)" by simp
  moreover have "(x + 2 ^ 31) mod (2 ^ 32 :: int) < 2 ^ 32" by simp
  ultimately show ?thesis unfolding ToInt32_def by simp
qed

lemma ToInt32_id: "- (2 ^ 31) \<le> x \<Longrightarrow> x < 2 ^ 31 \<Longrightarrow> ToInt32 x = x"
  unfolding ToInt32_def by simp

lemma js_sar_less:
  assumes "0 < js_sar v 7"
  shows "nat (ToInt32 (js_sar v 7)) < nat (ToInt32 v)"
proof -
  let ?w = "ToInt32 v"
  have r: "- (2 ^ 31) \<le> ?w" "?w < 2 ^ 31" using ToInt32_range[of v] by auto
  have d: "js_sar v 7 = ?w div 128" by (simp add: js_sar_def)
  have p: "0 < ?w div 128" using assms d by simp
  then have w: "0 < ?w" by (simp add: pos_imp_zdiv_pos_iff)
  have "?w div 128 < ?w" using w by simp
  moreover have "ToInt32 (?w div 128) = ?w div 128"
    using p r w by (intro ToInt32_id) auto
  ultimately show ?thesis using d w by simp
qed

termination vlv_groups
  apply (relation "measure (\<lambda>v. nat (ToInt32 v))")
   apply simp
  subgoal for v x
    using js_sar_less[of v] by simp
  done

definition writeVariableLengthValue :: "int \<Rightarrow> 'a DataBuffer_scheme \<Rightarrow> 'a DataBuffer_scheme" where
  "writeVariableLengthValue v b =
     (case vlv_groups v of
        [] \<Rightarrow> writeUInt8 JUndefined b
      | g # gs \<Rightarrow>
          writeUInt8 (JNum g) (fold (\<lambda>h. writeUInt8 (JNum (js_or h 0x80))) (rev gs) b))"

subsection \<open>Construction and commit\<close>

text \<open>\<open>new DataBuffer(input)\<close> for an array of bytes, and \<open>new DataBuffer()\<close>.\<close>

definition DataBuffer_from :: "byte list \<Rightarrow> DataBuffer" where
  "DataBuffer_from input =
     \<lparr>writing = False, data = input, buffer = map (\<lambda>x. JNum (uint x)) input, offset = 0\<rparr>"

definition DataBuffer_new :: DataBuffer where
  "DataBuffer_new = \<lparr>writing = True, data = [], buffer = [], offset = 0\<rparr>"

text \<open>
  \<open>commit\<close> copies the array into a \<open>Uint8Array\<close>, which converts each element to a
  number and reduces it modulo 256; what is not a number becomes 0. Of the strings that
  are numbers, the decimal integers (as \<open>`${note}`\<close> writes them) are read; the other
  notations that the conversion of a string accepts (white space, radix prefixes,
  fractions, exponents) do not occur in the events this program builds and are not
  interpreted by \<open>ToUint8\<close>.
\<close>

definition is_digit :: "nat \<Rightarrow> bool" where
  "is_digit c \<longleftrightarrow> 48 \<le> c \<and> c \<le> 57"

definition digits_value :: "nat list \<Rightarrow> int" where
  "digits_value ds = foldl (\<lambda>acc c. 10 * acc + (int c - 48)) 0 ds"

definition decimal_value :: "jsstring \<Rightarrow> int option" where
  "decimal_value s =
     (case s of
        [] \<Rightarrow> None
      | c # cs \<Rightarrow>
          if c = 45 \<and> cs \<noteq> [] \<and> list_all is_digit cs then Some (- digits_value cs)
          else if list_all is_digit s then Some (digits_value s)
          else None)"

definition ToUint8 :: "jsval \<Rightarrow> byte" where
  "ToUint8 v =
     (case v of
        JNum n \<Rightarrow> word_of_int n
      | JFrac r \<Rightarrow> word_of_int (if 0 \<le> r then \<lfloor>r\<rfloor> else \<lceil>r\<rceil>)
      | JStr s \<Rightarrow> (case decimal_value s of Some n \<Rightarrow> word_of_int n | None \<Rightarrow> 0)
      | _ \<Rightarrow> 0)"

definition commit :: "'a DataBuffer_scheme \<Rightarrow> 'a DataBuffer_scheme" where
  "commit b = b\<lparr>data := map ToUint8 (buffer b), writing := False\<rparr>"

section \<open>Note names\<close>

text \<open>The decimal notation of an integer, as a template literal writes a number.\<close>

fun nat_digits :: "nat \<Rightarrow> jsstring" where
  "nat_digits n = (if n < 10 then [48 + n] else nat_digits (n div 10) @ [48 + n mod 10])"

definition int_to_string :: "int \<Rightarrow> jsstring" where
  "int_to_string i = (if i < 0 then 45 # nat_digits (nat (- i)) else nat_digits (nat i))"

text \<open>
  \<open>parseInt(s, 10)\<close>: leading white space is skipped, a sign is read, then the longest
  run of decimal digits; \<open>None\<close> is \<open>NaN\<close>.
\<close>

definition is_white_space :: "nat \<Rightarrow> bool" where
  "is_white_space c \<longleftrightarrow>
     c \<in> {9, 10, 11, 12, 13, 32, 160, 5760, 8232, 8233, 8239, 8287, 12288, 65279}
     \<or> (8192 \<le> c \<and> c \<le> 8202)"

definition parseInt10 :: "jsstring \<Rightarrow> int option" where
  "parseInt10 s =
     (let t = dropWhile is_white_space s;
          (neg, u) = (case t of
                        c # cs \<Rightarrow> if c = 45 then (True, cs) else if c = 43 then (False, cs)
                                  else (False, t)
                      | [] \<Rightarrow> (False, t));
          ds = takeWhile is_digit u
      in if ds = [] then None
         else Some (if neg then - digits_value ds else digits_value ds))"

text \<open>
  \<open>midiToNote(midiValue, octaveOffset = 2, noteNames = [...])\<close>. An index outside
  \<open>noteNames\<close> gives \<open>undefined\<close>, which the template literal writes out.
\<close>

definition default_noteNames :: "jsstring list" where
  "default_noteNames =
     map str [''C'', ''C#'', ''D'', ''D#'', ''E'', ''F'', ''F#'', ''G'', ''G#'', ''A'', ''A#'', ''B'']"

definition midiToNote :: "int \<Rightarrow> int \<Rightarrow> jsstring list \<Rightarrow> error + jsstring" where
  "midiToNote midiValue octaveOffset noteNames =
     (if midiValue < 0 \<or> midiValue > 127 then Inl InvalidMidiValue
      else
        let noteIndex = midiValue mod 12;
            octave = midiValue div 12 - octaveOffset
        in Inr ((if nat noteIndex < length noteNames then noteNames ! nat noteIndex
                 else str ''undefined'') @ int_to_string octave))"

text \<open>
  \<open>noteToMidi(noteString, octaveOffset = 2, noteMap = {...})\<close>. \<open>match_note\<close> is the
  regular expression \<open>/^([A-G]#?)(-?\d+)$/\<close> and returns its two groups. A note that
  \<open>noteMap\<close> lacks makes the number \<open>NaN\<close>, which passes the range check and is
  returned: \<open>Inr None\<close>.
\<close>

definition default_noteMap :: "(jsstring \<times> int) list" where
  "default_noteMap =
     [(str ''C'', 0), (str ''C#'', 1), (str ''D'', 2), (str ''D#'', 3), (str ''E'', 4),
      (str ''E#'', 5), (str ''F'', 5), (str ''F#'', 6), (str ''G'', 7), (str ''G#'', 8),
      (str ''A'', 9), (str ''A#'', 10), (str ''B'', 11), (str ''B#'', 0)]"

definition match_note :: "jsstring \<Rightarrow> (jsstring \<times> jsstring) option" where
  "match_note s =
     (case s of
        [] \<Rightarrow> None
      | c # r0 \<Rightarrow>
          if 65 \<le> c \<and> c \<le> 71 then
            (let (note, r1) = (case r0 of x # xs \<Rightarrow> if x = 35 then ([c, 35], xs) else ([c], r0)
                                        | [] \<Rightarrow> ([c], r0));
                 (sign, r2) = (case r1 of x # xs \<Rightarrow> if x = 45 then ([45], xs) else ([], r1)
                                        | [] \<Rightarrow> ([], r1))
             in if r2 \<noteq> [] \<and> list_all is_digit r2 then Some (note, sign @ r2) else None)
          else None)"

definition noteToMidi :: "jsstring \<Rightarrow> int \<Rightarrow> (jsstring \<times> int) list \<Rightarrow> error + int option" where
  "noteToMidi noteString octaveOffset noteMap =
     (case match_note noteString of
        None \<Rightarrow> Inl InvalidNoteFormat
      | Some (note, octave) \<Rightarrow>
          (case (parseInt10 octave, map_of noteMap note) of
             (Some k, Some x) \<Rightarrow>
               (let midiNumber = (k + octaveOffset) * 12 + x
                in if midiNumber < 0 \<or> midiNumber > 127 then Inl NoteOutOfRange
                   else Inr (Some midiNumber))
           | _ \<Rightarrow> Inr None))"

section \<open>Events, tracks and the MIDI object\<close>

text \<open>
  Object literals keep their properties in insertion order. \<open>get_prop\<close> reads a property
  (\<open>undefined\<close> when it is absent), \<open>set_prop\<close> assigns one.
\<close>

fun obj_set :: "(string \<times> jsval) list \<Rightarrow> string \<Rightarrow> jsval \<Rightarrow> (string \<times> jsval) list" where
  "obj_set [] k v = [(k, v)]"
| "obj_set ((k', v') # ps) k v = (if k' = k then (k, v) # ps else (k', v') # obj_set ps k v)"

definition get_prop :: "jsval \<Rightarrow> string \<Rightarrow> jsval" where
  "get_prop v k = (case v of JObj ps \<Rightarrow> (case map_of ps k of Some x \<Rightarrow> x | None \<Rightarrow> JUndefined)
                       | _ \<Rightarrow> JUndefined)"

definition has_prop :: "jsval \<Rightarrow> string \<Rightarrow> bool" where
  "has_prop v k = (case v of JObj ps \<Rightarrow> map_of ps k \<noteq> None | _ \<Rightarrow> False)"

definition set_prop :: "jsval \<Rightarrow> string \<Rightarrow> jsval \<Rightarrow> jsval" where
  "set_prop v k x = (case v of JObj ps \<Rightarrow> JObj (obj_set ps k x) | _ \<Rightarrow> v)"

text \<open>
  A \<open>MidiTrackEvent\<close>. A property that was never assigned is \<open>None\<close>
  (\<open>undefined\<close>). The property \<open>data\<close> of the source is the field \<open>edata\<close> here, and
  the property \<open>type\<close> of a chunk is \<open>ctype\<close>, because \<open>data\<close> and \<open>type\<close> already name
  the buffer's array and the event's status.
\<close>

record MidiTrackEvent =
  deltaTime :: "int option"
  type :: "int option"
  label :: "jsstring option"
  edata :: jsval
  metaType :: "int option"
  metaEventLength :: "int option"
  channel :: "int option"

definition empty_event :: MidiTrackEvent where
  "empty_event = \<lparr>deltaTime = None, type = None, label = None, edata = JUndefined,
     metaType = None, metaEventLength = None, channel = None\<rparr>"

record Track =
  ctype :: jsstring
  chunkLength :: int
  events :: "MidiTrackEvent list"

text \<open>\<open>class AudioMIDI extends DataBuffer\<close>. \<open>timeDivision\<close> is \<open>undefined\<close> after
  parsing a header in frames-per-second mode.\<close>

record AudioMIDI = DataBuffer +
  format :: int
  trackCount :: int
  timeDivision :: "int option"
  chunks :: "Track list"

text \<open>\<open>new AudioMIDI(input)\<close> for an array of bytes, with no options.\<close>

definition AudioMIDI_from :: "byte list \<Rightarrow> AudioMIDI" where
  "AudioMIDI_from input =
     \<lparr>writing = False, data = input, buffer = map (\<lambda>x. JNum (uint x)) input, offset = 0,
      format = 0, trackCount = 0, timeDivision = Some 480, chunks = []\<rparr>"

subsection \<open>Reading more than one byte\<close>

text \<open>\<open>read(bytes)\<close> allocates a \<open>Uint8Array\<close> (a negative length raises) and fills it
  byte by byte.\<close>

fun read_loop :: "nat \<Rightarrow> 'a DataBuffer_scheme \<Rightarrow> error + (byte list \<times> 'a DataBuffer_scheme)" where
  "read_loop n b =
     (if n = 0 then Inr ([], b)
      else case readUInt8 b of
             Inl e \<Rightarrow> Inl e
           | Inr (x, b') \<Rightarrow>
               (case read_loop (n - 1) b' of
                  Inl e \<Rightarrow> Inl e
                | Inr (xs, b'') \<Rightarrow> Inr (word_of_int x # xs, b'')))"

declare read_loop.simps [simp del]

definition read :: "int \<Rightarrow> 'a DataBuffer_scheme \<Rightarrow> error + (byte list \<times> 'a DataBuffer_scheme)" where
  "read bytes b = (if bytes < 0 then Inl RangeError else read_loop (nat bytes) b)"

definition readUInt16 :: "'a DataBuffer_scheme \<Rightarrow> error + (int \<times> 'a DataBuffer_scheme)" where
  "readUInt16 b =
     (case read 2 b of
        Inl e \<Rightarrow> Inl e
      | Inr (xs, b') \<Rightarrow> Inr (uint (xs ! 0) * 256 + uint (xs ! 1), b'))"

definition readUInt32 :: "'a DataBuffer_scheme \<Rightarrow> error + (int \<times> 'a DataBuffer_scheme)" where
  "readUInt32 b =
     (case read 4 b of
        Inl e \<Rightarrow> Inl e
      | Inr (xs, b') \<Rightarrow>
          Inr (uint (xs ! 0) * 16777216 + uint (xs ! 1) * 65536 + uint (xs ! 2) * 256
               + uint (xs ! 3), b'))"

text \<open>
  \<open>readString(length)\<close> with the default encoding: a length of 0 stands for all the
  remaining bytes; the characters are peeked one by one, then the cursor advances by
  the length, backwards when it is negative.
\<close>

function peek_chars :: "int \<Rightarrow> int \<Rightarrow> 'a DataBuffer_scheme \<Rightarrow> error + jsstring" where
  "peek_chars off end b =
     (if off < end then
        (case peekUInt8 b off of
           Inl e \<Rightarrow> Inl e
         | Inr c \<Rightarrow>
             (case peek_chars (off + 1) end b of
                Inl e \<Rightarrow> Inl e
              | Inr cs \<Rightarrow> Inr (nat c # cs)))
      else Inr [])"
  by pat_completeness auto
termination
  by (relation "measure (\<lambda>(off, end, b). nat (end - off))") auto

declare peek_chars.simps [simp del]

definition readString :: "int \<Rightarrow> 'a DataBuffer_scheme \<Rightarrow> error + (jsstring \<times> 'a DataBuffer_scheme)" where
  "readString len b =
     (let len' = (if len = 0 then remainingBytes b else len) in
      case peek_chars (offset b) (offset b + len') b of
        Inl e \<Rightarrow> Inl e
      | Inr cs \<Rightarrow>
          (case advance len' b of
             Inl e \<Rightarrow> Inl e
           | Inr b' \<Rightarrow> Inr (cs, b')))"

subsection \<open>Label tables\<close>

function hex_digits :: "nat \<Rightarrow> jsstring" where
  "hex_digits n =
     (let d = n mod 16; c = (if d < 10 then 48 + d else 55 + d)
      in if n < 16 then [c] else hex_digits (n div 16) @ [c])"
  by pat_completeness auto
termination
  by (relation "measure id") auto

declare hex_digits.simps [simp del]

definition controller_labels :: "(int \<times> string) list" where
  "controller_labels =
     [
      (0x00, ''Bank Select (MSB)''), (0x01, ''Modulation Wheel (MSB)''),
      (0x02, ''Breath Controller (MSB)''), (0x04, ''Foot Controller (MSB)''),
      (0x05, ''Portamento Time (MSB)''), (0x06, ''Data Entry (MSB)''),
      (0x07, ''Volume (MSB)''), (0x08, ''Balance (MSB)''), (0x0A, ''Pan (MSB)''),
      (0x0B, ''Expression Controller (MSB)''), (0x0C, ''Effect Control 1 (MSB)''),
      (0x0D, ''Effect Control 2 (MSB)''), (0x10, ''General Purpose Controller 1 (MSB)''),
      (0x11, ''General Purpose Controller 2 (MSB)''),
      (0x12, ''General Purpose Controller 3 (MSB)''),
      (0x13, ''General Purpose Controller 4 (MSB)''), (0x20, ''Bank Select (LSB)''),
      (0x21, ''Modulation Wheel (LSB)''), (0x22, ''Breath Controller (LSB)''),
      (0x24, ''Foot Controller (LSB)''), (0x25, ''Portamento Time (LSB)''),
      (0x26, ''Data Entry (LSB)''), (0x27, ''Volume (LSB)''), (0x28, ''Balance (LSB)''),
      (0x2A, ''Pan (LSB)''), (0x2B, ''Expression Controller (LSB)''),
      (0x2C, ''Effect Control 1 (LSB)''), (0x2D, ''Effect Control 2 (LSB)''),
      (0x30, ''General Purpose Controller 1 (LSB)''),
      (0x31, ''General Purpose Controller 2 (LSB)''), (0x32, ''General Purpose #3 LSB''),
      (0x33, ''General Purpose #4 LSB''), (0x40, ''Hold Pedal #1''),
      (0x41, ''Portamento (GS)''), (0x42, ''Sostenuto (GS)''), (0x43, ''Soft Pedal (GS)''),
      (0x44, ''Legato Pedal''), (0x45, ''Hold Pedal #2''), (0x46, ''Sound Variation''),
      (0x47, ''Sound Timbre''), (0x48, ''Sound Release Time''),
      (0x49, ''Sound Attack Time''), (0x4A, ''Sound Brightness''),
      (0x4B, ''Sound Control #6''), (0x4C, ''Sound Control #7''),
      (0x4D, ''Sound Control #8''), (0x4E, ''Sound Control #9''),
      (0x4F, ''Sound Control #10''), (0x50, ''GP Control #5''), (0x51, ''GP Control #6''),
      (0x52, ''GP Control #7''), (0x53, ''GP Control #8''),
      (0x54, ''Portamento Control (GS)''), (0x5B, ''Reverb Level (GS)''),
      (0x5C, ''Tremolo Depth''), (0x5D, ''Chorus Level (GS)''), (0x5E, ''Celeste Depth''),
      (0x5F, ''Phaser Depth''), (0x60, ''Data Increment''), (0x61, ''Data Decrement''),
      (0x62, ''NRPN Parameter LSB (GS)''), (0x63, ''NRPN Parameter MSB (GS)''),
      (0x64, ''RPN Parameter LSB''), (0x65, ''RPN Parameter MSB''),
      (0x78, ''All Sound Off (GS)''), (0x79, ''Reset All Controllers''),
      (0x7A, ''Local On/Off''), (0x7B, ''All Notes Off''), (0x7C, ''Omni Mode Off''),
      (0x7D, ''Omni Mode On''), (0x7E, ''Mono Mode On''), (0x7F, ''Poly Mode On'')]"

definition getControllerLabel :: "int \<Rightarrow> jsstring" where
  "getControllerLabel controller =
     (case map_of controller_labels controller of
        Some l \<Rightarrow> str l
      | None \<Rightarrow> str ''Unknown Controller: '' @ int_to_string controller)"

definition manufacturers :: "(int \<times> string) list" where
  "manufacturers =
     [
      (0x01, ''Sequential Circuits''), (0x02, ''Big Briar''), (0x03, ''Octave/Plateau''),
      (0x04, ''Moog''), (0x05, ''Passport Designs''), (0x06, ''Lexicon''),
      (0x07, ''Kurzweil''), (0x08, ''Fender''), (0x09, ''Gulbransen''),
      (0x0A, ''Delta Labs''), (0x0B, ''Sound Comp''), (0x0C, ''General Electro''),
      (0x0D, ''Matthews Research''), (0x0E, ''Effect control 2''), (0x10, ''Oberheim''),
      (0x11, ''PAIA''), (0x12, ''Simmons''), (0x13, ''DigiDesign''), (0x14, ''Fairlight''),
      (0x15, ''JL Cooper''), (0x16, ''Lowery''), (0x17, ''Lin''), (0x18, ''Emu''),
      (0x1B, ''Peavey''), (0x20, ''BonTempi''), (0x21, ''S.I.E.L.''),
      (0x23, ''SyntheAxe''), (0x24, ''Hohner''), (0x25, ''Crumar''), (0x26, ''Solton''),
      (0x27, ''Jellinghaus Ms''), (0x28, ''CTS''), (0x29, ''PPG''), (0x2F, ''Elka''),
      (0x36, ''Cheetah''), (0x3E, ''Waldorf''), (0x40, ''Kawai''), (0x41, ''Roland''),
      (0x42, ''Korg''), (0x43, ''Yamaha''), (0x44, ''Casio''), (0x46, ''Kamiya Studio''),
      (0x47, ''Akai''), (0x48, ''Victor''), (0x4B, ''Fujitsu''), (0x4C, ''Sony''),
      (0x4E, ''Teac''), (0x50, ''Matsushita''), (0x51, ''Fostex''), (0x52, ''Zoom''),
      (0x54, ''Matsushita''), (0x55, ''Suzuki''), (0x56, ''Fuji Sound''),
      (0x57, ''Acoustic Technical Laboratory''),
      (0x7E, ''Universal Non Realtime Message (UNRT)''),
      (0x7F, ''Universal Realtime Message (URT)'')]"

definition getManufacturerLabel :: "int \<Rightarrow> jsstring" where
  "getManufacturerLabel manufacturerId =
     (case map_of manufacturers manufacturerId of
        Some l \<Rightarrow> str l
      | None \<Rightarrow> str ''Unknown Manufacturer: '' @ hex_digits (nat manufacturerId))"

section \<open>Parsing\<close>

text \<open>Sequencing of calls that may throw: run \<open>r\<close>, pass its value and the new state on.\<close>

definition read_then ::
  "('s \<Rightarrow> error + ('a \<times> 's)) \<Rightarrow> ('a \<Rightarrow> 's \<Rightarrow> error + 'r) \<Rightarrow> 's \<Rightarrow> error + 'r" where
  "read_then r k s = (case r s of Inl e \<Rightarrow> Inl e | Inr (x, s') \<Rightarrow> k x s')"

subsection \<open>\<open>decodeHeader\<close>\<close>

text \<open>
  \<open>decodeHeader\<close> wraps the chunk in a \<open>DataStream\<close> over a single buffer, whose reads
  are those of \<open>DataBuffer\<close>; 16- and 32-bit values are big-endian.
\<close>

record Header =
  h_type :: jsstring
  h_chunkLength :: int
  h_format :: int
  h_trackCount :: int
  h_framesPerSecond :: "int option"
  h_ticksPerFrame :: "int option"
  h_timeDivision :: "int option"

definition decodeHeader :: "byte list \<Rightarrow> error + Header" where
  "decodeHeader chunk =
     read_then (readString 4) (\<lambda>type.
     read_then readUInt32 (\<lambda>chunkLength.
     read_then readUInt16 (\<lambda>format.
     read_then readUInt16 (\<lambda>trackCount.
     read_then readUInt8 (\<lambda>timeDivisionByte1.
     read_then readUInt8 (\<lambda>timeDivisionByte2. \<lambda>_.
       Inr \<lparr>h_type = type, h_chunkLength = chunkLength, h_format = format,
            h_trackCount = trackCount,
            h_framesPerSecond =
              (if timeDivisionByte1 \<ge> 128 then Some (timeDivisionByte1 - 128) else None),
            h_ticksPerFrame =
              (if timeDivisionByte1 \<ge> 128 then Some timeDivisionByte2 else None),
            h_timeDivision =
              (if timeDivisionByte1 \<ge> 128 then None
               else Some (timeDivisionByte1 * 256 + timeDivisionByte2))\<rparr>))))))
       (DataBuffer_from chunk)"

subsection \<open>System messages\<close>

text \<open>
  The cases \<open>0xF0\<close> to \<open>0xFE\<close> of the outer \<open>switch\<close>. They set neither \<open>type\<close> nor
  \<open>channel\<close>. The loop of \<open>0xF0\<close> reads up to the byte \<open>0xF7\<close>; when there is none it
  ends by an underflow, or does not end at all on a buffer in writing mode, whose reads
  never underflow (\<open>None\<close>).
\<close>

partial_function (option) sysex_loop ::
  "int \<Rightarrow> jsval list \<Rightarrow> 'a DataBuffer_scheme \<Rightarrow> (error + (jsval list \<times> 'a DataBuffer_scheme)) option" where
  "sysex_loop byte acc b =
     (if byte \<noteq> 0xF7 then
        (case readUInt8 b of
           Inl e \<Rightarrow> Some (Inl e)
         | Inr (byte', b') \<Rightarrow> sysex_loop byte' (acc @ [JNum byte]) b')
      else Some (Inr (acc, b)))"

definition sysex_event ::
  "MidiTrackEvent \<Rightarrow> 'a DataBuffer_scheme \<Rightarrow>
     (error + (MidiTrackEvent \<times> 'a DataBuffer_scheme)) option" where
  "sysex_event ev b =
     (case readUInt8 b of
        Inl e \<Rightarrow> Some (Inl e)
      | Inr (manufacturerId, b1) \<Rightarrow>
          (case readUInt8 b1 of
             Inl e \<Rightarrow> Some (Inl e)
           | Inr (byte, b2) \<Rightarrow>
               (case sysex_loop byte [] b2 of
                  None \<Rightarrow> None
                | Some (Inl e) \<Rightarrow> Some (Inl e)
                | Some (Inr (bytes, b3)) \<Rightarrow>
                    Some (Inr (ev\<lparr>edata :=
                        JObj [(''manufacturerId'', JNum manufacturerId),
                              (''manufacturerLabel'', JStr (getManufacturerLabel manufacturerId)),
                              (''data'', JArr bytes)]\<rparr>, b3)))))"

definition blob_event ::
  "string \<Rightarrow> MidiTrackEvent \<Rightarrow> 'a DataBuffer_scheme \<Rightarrow>
     error + (MidiTrackEvent \<times> 'a DataBuffer_scheme)" where
  "blob_event lbl ev =
     read_then readVariableLengthValues (\<lambda>len.
     read_then (read len) (\<lambda>bytes. \<lambda>b.
       Inr (ev\<lparr>edata := JBytes bytes, label := Some (str lbl)\<rparr>, b)))"

definition parse_system ::
  "int \<Rightarrow> MidiTrackEvent \<Rightarrow> 'a DataBuffer_scheme \<Rightarrow>
     error + (MidiTrackEvent \<times> 'a DataBuffer_scheme)" where
  "parse_system eventType ev =
     (if eventType = 0xF2 then
        read_then readUInt8 (\<lambda>msb.
        read_then readUInt8 (\<lambda>lsb. \<lambda>b.
          Inr (ev\<lparr>edata := JObj [(''msb'', JNum msb), (''lsb'', JNum lsb)],
                   label := Some (str ''Song Position Pointer'')\<rparr>, b)))
      else if eventType = 0xF3 then blob_event ''System Common Messages - Song Select'' ev
      else if eventType = 0xF4 then
        blob_event ''System Real Time Messages - Undefined 0xF4 (Reserved)'' ev
      else if eventType = 0xF5 then
        blob_event ''System Real Time Messages - Undefined 0xF5 (Reserved)'' ev
      else if eventType = 0xF6 then blob_event ''System Common Messages - Tune Request'' ev
      else if eventType = 0xF7 then blob_event ''System Common Messages - EOX'' ev
      else if eventType = 0xF8 then blob_event ''System Real Time Messages - MIDI Clock'' ev
      else if eventType = 0xF9 then
        blob_event ''System Real Time Messages - Undefined 0xF9 (Reserved)'' ev
      else if eventType = 0xFA then blob_event ''System Real Time Messages - Start'' ev
      else if eventType = 0xFB then blob_event ''System Real Time Messages - Continue'' ev
      else if eventType = 0xFC then blob_event ''System Real Time Messages - Stop'' ev
      else if eventType = 0xFD then
        blob_event ''System Real Time Messages - Undefined 0xFD (Reserved)'' ev
      else blob_event ''System Real Time Messages - Active Sensing'' ev)"

subsection \<open>Meta events\<close>

definition text_event ::
  "string \<Rightarrow> int \<Rightarrow> MidiTrackEvent \<Rightarrow> 'a DataBuffer_scheme \<Rightarrow>
     error + (MidiTrackEvent \<times> 'a DataBuffer_scheme)" where
  "text_event lbl len ev =
     read_then (readString len) (\<lambda>text. \<lambda>b.
       Inr (ev\<lparr>edata := JStr text, label := Some (str lbl)\<rparr>, b))"

definition raw_event ::
  "int \<Rightarrow> MidiTrackEvent \<Rightarrow> 'a DataBuffer_scheme \<Rightarrow>
     error + (MidiTrackEvent \<times> 'a DataBuffer_scheme)" where
  "raw_event len ev =
     read_then (read len) (\<lambda>bytes. \<lambda>b.
       Inr (ev\<lparr>edata := JBytes bytes\<rparr>, b))"

definition byte_event ::
  "string \<Rightarrow> MidiTrackEvent \<Rightarrow> 'a DataBuffer_scheme \<Rightarrow>
     error + (MidiTrackEvent \<times> 'a DataBuffer_scheme)" where
  "byte_event lbl ev =
     read_then readUInt8 (\<lambda>x. \<lambda>b. Inr (ev\<lparr>edata := JNum x, label := Some (str lbl)\<rparr>, b))"

text \<open>The frame rates of the SMPTE offset and the names of the key signatures.\<close>

definition frameRates :: "(int \<times> jsval) list" where
  "frameRates = [(0, JNum 24), (1, JNum 25), (2, JFrac (2997 / 100)), (3, JNum 30)]"

definition keys :: "(int \<times> jsstring) list" where
  "keys =
     [(-7, str ''C'' @ [9837]), (-6, str ''G'' @ [9837]), (-5, str ''D'' @ [9837]),
      (-4, str ''A'' @ [9837]), (-3, str ''E'' @ [9837]), (-2, str ''B'' @ [9837]),
      (-1, str ''F''), (0, str ''C''), (1, str ''G''), (2, str ''D''), (3, str ''A''),
      (4, str ''E''), (5, str ''B''), (6, str ''F'' @ [9839]), (7, str ''C'' @ [9839])]"

text \<open>
  \<open>Math.round(60000000 / tempo)\<close>: the quotient of two integers below \<open>2^26\<close> is far
  enough from a half, or exactly on it, for the rounding of the division not to matter.
\<close>

definition round_bpm :: "int \<Rightarrow> jsval" where
  "round_bpm tempo =
     (if tempo = 0 then JInfinity else JNum ((120000000 + tempo) div (2 * tempo)))"

definition parse_meta ::
  "MidiTrackEvent \<Rightarrow> 'a AudioMIDI_scheme \<Rightarrow> error + (MidiTrackEvent \<times> 'a AudioMIDI_scheme)" where
  "parse_meta ev0 =
     read_then readUInt8 (\<lambda>mt.
     read_then readVariableLengthValues (\<lambda>len.
       let ev = ev0\<lparr>type := Some 0xFF, metaType := Some mt, metaEventLength := Some len\<rparr> in
       if mt = 0x00 then
         (if len = 2 then
            read_then readUInt8 (\<lambda>byte1.
            read_then readUInt8 (\<lambda>byte2. \<lambda>b.
              Inr (ev\<lparr>edata := JObj [(''sequenceNumber'', JNum (js_shl byte1 8 + byte2)),
                                      (''type'', JStr (str ''Provided''))],
                       label := Some (str ''Sequence Number'')\<rparr>, b)))
          else
            (\<lambda>b. case advance 1 b of
                    Inl e \<Rightarrow> Inl e
                  | Inr b' \<Rightarrow>
                      Inr (ev\<lparr>edata := JObj [(''sequenceNumber'', JNum (trackCount b')),
                                              (''type'', JStr (str ''Next Track Index''))],
                               label := Some (str ''Sequence Number'')\<rparr>, b')))
       else if mt = 0x01 then text_event ''Text Event'' len ev
       else if mt = 0x02 then text_event ''Copyright Notice'' len ev
       else if mt = 0x03 then text_event ''Sequence / Track Name'' len ev
       else if mt = 0x04 then text_event ''Instrument Name'' len ev
       else if mt = 0x05 then text_event ''Lyrics'' len ev
       else if mt = 0x06 then text_event ''Marker'' len ev
       else if mt = 0x07 then text_event ''Cue Point'' len ev
       else if mt = 0x08 then text_event ''Program Name'' len ev
       else if mt = 0x09 then text_event ''Device (Port) Name'' len ev
       else if mt = 0x20 then byte_event ''Channel Prefix'' ev
       else if mt = 0x21 then byte_event ''MIDI Port'' ev
       else if mt = 0x2F then
         (\<lambda>b. Inr (ev\<lparr>edata := JStr [], label := Some (str ''End of Track'')\<rparr>, b))
       else if mt = 0x4B then
         read_then readUInt8 (\<lambda>tag.
         read_then (read len) (\<lambda>tagValue. \<lambda>b.
           Inr (ev\<lparr>edata :=
                  JObj [(''tag'', JNum tag),
                        (''tagLabel'', JStr (str
                           (if tag = 0x01 then ''Genre'' else if tag = 0x02 then ''Artist''
                            else if tag = 0x03 then ''Composer''
                            else if tag = 0x04 then ''Duration (seconds)''
                            else if tag = 0x05 then ''BPM (Tempo)''
                            else ''Unknown Tag: undefined''))),
                        (''tagValue'', JBytes tagValue)],
                    label := Some (str ''M-Live Tag'')\<rparr>, b)))
       else if mt = 0x51 then
         (if len \<noteq> 3 then raw_event len ev
          else
            read_then readUInt8 (\<lambda>byte1.
            read_then readUInt8 (\<lambda>byte2.
            read_then readUInt8 (\<lambda>byte3. \<lambda>b.
              let tempo = js_shl byte1 16 + js_shl byte2 8 + byte3 in
              Inr (ev\<lparr>edata := JObj [(''byte1'', JNum byte1), (''byte2'', JNum byte2),
                                      (''byte3'', JNum byte3), (''tempo'', JNum tempo),
                                      (''bpm'', round_bpm tempo)],
                       label := Some (str ''Set Tempo'')\<rparr>, b)))))
       else if mt = 0x54 then
         read_then readUInt8 (\<lambda>hourByte.
         read_then readUInt8 (\<lambda>minute.
         read_then readUInt8 (\<lambda>second.
         read_then readUInt8 (\<lambda>frame.
         read_then readUInt8 (\<lambda>subFrame. \<lambda>b.
           let frameRateBits = js_and (js_sar hourByte 5) 0x03;
               frameRate = (case map_of frameRates frameRateBits of
                              Some r \<Rightarrow> r
                            | None \<Rightarrow> JStr (str ''Unknown Frame Rate: ''
                                               @ int_to_string frameRateBits));
               hour = js_and hourByte 0x1F
           in Inr (ev\<lparr>edata := JObj [(''hourByte'', JNum hourByte), (''hour'', JNum hour),
                                      (''minute'', JNum minute), (''second'', JNum second),
                                      (''frame'', JNum frame), (''subFrame'', JNum subFrame),
                                      (''frameRate'', frameRate)],
                       label := Some (str ''SMPTE Offset'')\<rparr>, b))))))
       else if mt = 0x58 then
         read_then readUInt8 (\<lambda>numerator.
         read_then readUInt8 (\<lambda>denominator.
         read_then readUInt8 (\<lambda>metronome.
         read_then readUInt8 (\<lambda>thirtySecondNotes. \<lambda>b.
           Inr (ev\<lparr>edata := JObj [(''numerator'', JNum numerator),
                                   (''denominator'', JNum denominator),
                                   (''metronome'', JNum metronome),
                                   (''thirtySecondNotes'', JNum thirtySecondNotes)],
                    label := Some (str ''Time Signature'')\<rparr>, b)))))
       else if mt = 0x59 then
         (if len \<noteq> 2 then raw_event len ev
          else
            read_then readUInt8 (\<lambda>keySignature.
            read_then readUInt8 (\<lambda>majorOrMinor. \<lambda>b.
              Inr (ev\<lparr>edata :=
                     JObj [(''keySignature'', JNum keySignature),
                           (''majorOrMinor'', JNum majorOrMinor),
                           (''keyName'', JStr (case map_of keys keySignature of
                                                Some k \<Rightarrow> k
                                              | None \<Rightarrow> str ''Unknown Key'')),
                           (''mode'', JStr (str (if majorOrMinor = 0 then ''Major''
                                                 else ''Minor'')))],
                       label := Some (str ''Key Signature'')\<rparr>, b))))
       else if mt = 0x7F then
         read_then (read len) (\<lambda>bytes. \<lambda>b.
           Inr (ev\<lparr>edata := JBytes bytes, label := Some (str ''Sequencer Specific'')\<rparr>, b))
       else raw_event len ev))"

subsection \<open>Channel events and the note map\<close>

text \<open>
  The state of a running \<open>parse()\<close>: the object itself and the locals of the method.
  \<open>activeNotes\<close> and \<open>currentTime\<close> are declared before the loop over the tracks,
  \<open>track\<close> and \<open>laststatusByte\<close> inside it. An entry of \<open>activeNotes\<close> holds the start
  time, the velocity and a reference to the Note On event object; the reference is the
  place the object has (or will have, once pushed) in \<open>chunks\<close>: the index of its track
  and its index in the track's \<open>events\<close>. The track being parsed has the index
  \<open>length chunks\<close>, where it is pushed when its loop ends.
\<close>

record parse_state = AudioMIDI +
  activeNotes :: "int \<Rightarrow> (int \<times> int \<times> nat \<times> nat) option"
  currentTime :: int
  track :: Track
  laststatusByte :: "int option"

definition patch_event_length :: "int \<Rightarrow> MidiTrackEvent \<Rightarrow> MidiTrackEvent" where
  "patch_event_length len ev = ev\<lparr>edata := set_prop (edata ev) ''length'' (JNum len)\<rparr>"

definition patch_length :: "nat \<times> nat \<Rightarrow> int \<Rightarrow> parse_state \<Rightarrow> parse_state" where
  "patch_length ref len s =
     (let (ti, ei) = ref in
      if ti = length (chunks s) then
        s\<lparr>track := (track s)\<lparr>events :=
             (events (track s))[ei := patch_event_length len (events (track s) ! ei)]\<rparr>\<rparr>
      else
        s\<lparr>chunks := (chunks s)[ti := (chunks s ! ti)\<lparr>events :=
             (events (chunks s ! ti))[ei := patch_event_length len (events (chunks s ! ti) ! ei)]\<rparr>]\<rparr>)"

definition note_off ::
  "MidiTrackEvent \<Rightarrow> parse_state \<Rightarrow> error + (MidiTrackEvent \<times> parse_state)" where
  "note_off ev =
     read_then readUInt8 (\<lambda>note.
     read_then readUInt8 (\<lambda>velocity. \<lambda>s.
       case activeNotes s note of
         Some (startTime, _, noteOnEvent) \<Rightarrow>
           (let noteLength = currentTime s - startTime;
                s' = patch_length noteOnEvent noteLength s
            in Inr (ev\<lparr>edata := JObj [(''note'', JStr (int_to_string note)),
                                       (''velocity'', JNum velocity),
                                       (''length'', JNum noteLength)],
                        label := Some (str ''Note Off'')\<rparr>,
                    s'\<lparr>activeNotes := (activeNotes s')(note := None)\<rparr>))
       | None \<Rightarrow>
           Inr (ev\<lparr>edata := JObj [(''note'', JStr (int_to_string note)),
                                   (''velocity'', JNum velocity),
                                   (''length'', JNum 0)],
                    label := Some (str ''Note Off'')\<rparr>, s)))"

definition note_on ::
  "MidiTrackEvent \<Rightarrow> parse_state \<Rightarrow> error + (MidiTrackEvent \<times> parse_state)" where
  "note_on ev =
     read_then readUInt8 (\<lambda>note.
     read_then readUInt8 (\<lambda>velocity. \<lambda>s.
       Inr (ev\<lparr>edata := JObj [(''note'', JNum note), (''velocity'', JNum velocity)],
                label := Some (str ''Note On'')\<rparr>,
            s\<lparr>activeNotes := (activeNotes s)(note \<mapsto>
                 (currentTime s, velocity, length (chunks s), length (events (track s))))\<rparr>)))"

text \<open>
  The default case of the outer \<open>switch\<close>. \<open>eventType\<close> is \<open>undefined\<close> when a data
  byte comes before any status byte; then \<open>channel\<close> and the inner \<open>switch\<close> see 0.
\<close>

definition parse_channel ::
  "int option \<Rightarrow> MidiTrackEvent \<Rightarrow> parse_state \<Rightarrow> error + (MidiTrackEvent \<times> parse_state)" where
  "parse_channel eventType ev0 =
     (let n = (case eventType of Some x \<Rightarrow> x | None \<Rightarrow> 0);
          ev = ev0\<lparr>type := eventType, channel := Some (js_and n 0x0F)\<rparr>;
          kind = js_and (js_sar n 4) 0x0F
      in
      if kind = 0x8 then note_off ev
      else if kind = 0x9 then note_on ev
      else if kind = 0xA then
        read_then readUInt8 (\<lambda>note.
        read_then readUInt8 (\<lambda>velocity. \<lambda>s.
          Inr (ev\<lparr>edata := JObj [(''note'', JNum note), (''velocity'', JNum velocity)],
                   label := Some (str ''Note Aftertouch'')\<rparr>, s)))
      else if kind = 0xB then
        read_then readUInt8 (\<lambda>controller.
        read_then readUInt8 (\<lambda>val. \<lambda>s.
          Inr (ev\<lparr>edata := JObj [(''controller'', JNum controller), (''value'', JNum val),
                                  (''label'', JStr (getControllerLabel controller))],
                   label := Some (str ''Controller'')\<rparr>, s)))
      else if kind = 0xC then byte_event ''Program Change'' ev
      else if kind = 0xD then byte_event ''Channel Aftertouch'' ev
      else if kind = 0xE then
        read_then readUInt8 (\<lambda>firstByte.
        read_then readUInt8 (\<lambda>secondByte. \<lambda>s.
          Inr (ev\<lparr>edata := JObj [(''pitchValue'', JNum (js_shl secondByte 7 + firstByte)),
                                  (''firstByte'', JNum firstByte),
                                  (''secondByte'', JNum secondByte)],
                   label := Some (str ''Pitch Bend Event'')\<rparr>, s)))
      else if kind = 0xF then
        read_then readVariableLengthValues (\<lambda>len.
        read_then (read len) (\<lambda>bytes. \<lambda>s. Inr (ev\<lparr>edata := JBytes bytes\<rparr>, s)))
      else (\<lambda>s. Inr (ev, s)))"

subsection \<open>The loops of \<open>parse\<close>\<close>

text \<open>
  The event type of a round: the byte read when it is a status byte, else the last status
  byte (\<open>undefined\<close> before the first one), the cursor moved back over the byte read.
\<close>

definition read_status :: "parse_state \<Rightarrow> error + (int option \<times> parse_state)" where
  "read_status s =
     (case readUInt8 s of
        Inl e \<Rightarrow> Inl e
      | Inr (byte, s1) \<Rightarrow>
          if byte \<ge> 0x80 then Inr (Some byte, s1\<lparr>laststatusByte := Some byte\<rparr>)
          else (case rewind 1 s1 of
                  Inl e \<Rightarrow> Inl e
                | Inr s2 \<Rightarrow> Inr (laststatusByte s1, s2)))"

text \<open>One round of the loop over the events of a track.\<close>

definition parse_event :: "parse_state \<Rightarrow> (error + parse_state) option" where
  "parse_event s0 =
     (case readVariableLengthValues s0 of
        Inl e \<Rightarrow> Some (Inl e)
      | Inr (dt, s1) \<Rightarrow>
          (let ev = empty_event\<lparr>deltaTime := Some dt\<rparr>;
               s2 = s1\<lparr>currentTime := currentTime s1 + dt\<rparr>
           in case read_status s2 of
                Inl e \<Rightarrow> Some (Inl e)
              | Inr (eventType, s5) \<Rightarrow>
                  (case (case eventType of
                           None \<Rightarrow> Some (parse_channel eventType ev s5)
                         | Some x \<Rightarrow>
                             if x = 0xF0 then sysex_event ev s5
                             else if 0xF2 \<le> x \<and> x \<le> 0xFE then Some (parse_system x ev s5)
                             else if x = 0xFF then Some (parse_meta ev s5)
                             else Some (parse_channel eventType ev s5)) of
                     None \<Rightarrow> None
                   | Some (Inl e) \<Rightarrow> Some (Inl e)
                   | Some (Inr (ev', s6)) \<Rightarrow>
                       Some (Inr (s6\<lparr>track := (track s6)\<lparr>events :=
                                     events (track s6) @ [ev']\<rparr>\<rparr>)))))"

text \<open>
  The loop over the events runs while bytes remain in the whole buffer. It may not end:
  a text meta event with a negative declared length moves the cursor backwards.
\<close>

partial_function (option) parse_events :: "parse_state \<Rightarrow> (error + parse_state) option" where
  "parse_events s =
     (if remainingBytes s > 0 then
        (case parse_event s of
           None \<Rightarrow> None
         | Some (Inl e) \<Rightarrow> Some (Inl e)
         | Some (Inr s') \<Rightarrow> parse_events s')
      else Some (Inr s))"

text \<open>
  The loop over the tracks, \<open>for (let t = 0; t < header.trackCount; t++)\<close>. It stops
  early when no byte remains or when the chunk type read is not \<open>MTrk\<close>; a track is
  pushed on \<open>chunks\<close> only after its events were read.
\<close>

function parse_tracks :: "int \<Rightarrow> int \<Rightarrow> parse_state \<Rightarrow> (error + parse_state) option" where
  "parse_tracks t n s =
     (if t < n then
        (if remainingBytes s = 0 then Some (Inr s)
         else
           case readString 4 s of
             Inl e \<Rightarrow> Some (Inl e)
           | Inr (ty, s1) \<Rightarrow>
               (case readUInt32 s1 of
                  Inl e \<Rightarrow> Some (Inl e)
                | Inr (len, s2) \<Rightarrow>
                    if ty \<noteq> str ''MTrk'' then Some (Inr s2)
                    else
                      (case parse_events
                              (s2\<lparr>track := \<lparr>ctype = ty, chunkLength = len, events = []\<rparr>,
                                  laststatusByte := None\<rparr>) of
                         None \<Rightarrow> None
                       | Some (Inl e) \<Rightarrow> Some (Inl e)
                       | Some (Inr s3) \<Rightarrow>
                           parse_tracks (t + 1) n (s3\<lparr>chunks := chunks s3 @ [track s3]\<rparr>))))
      else Some (Inr s))"
  by pat_completeness auto
termination
  by (relation "measure (\<lambda>(t, n, s). nat (n - t))") auto

declare parse_tracks.simps [simp del]

text \<open>\<open>parse()\<close>. \<open>Some (Inl e)\<close> is an exception thrown, \<open>None\<close> a run that does not end.\<close>

definition start_parse :: "AudioMIDI \<Rightarrow> parse_state" where
  "start_parse m =
     \<lparr>writing = writing m, data = data m, buffer = buffer m, offset = offset m,
      format = format m, trackCount = trackCount m, timeDivision = timeDivision m,
      chunks = chunks m,
      activeNotes = (\<lambda>_. None), currentTime = 0,
      track = \<lparr>ctype = [], chunkLength = 0, events = []\<rparr>, laststatusByte = None\<rparr>"

definition finish_parse :: "parse_state \<Rightarrow> AudioMIDI" where
  "finish_parse s =
     \<lparr>writing = writing s, data = data s, buffer = buffer s, offset = offset s,
      format = format s, trackCount = trackCount s, timeDivision = timeDivision s,
      chunks = chunks s\<rparr>"

definition parse :: "AudioMIDI \<Rightarrow> (error + AudioMIDI) option" where
  "parse m =
     (case read 14 m of
        Inl e \<Rightarrow> Some (Inl e)
      | Inr (chunk, m1) \<Rightarrow>
          (case decodeHeader chunk of
             Inl e \<Rightarrow> Some (Inl e)
           | Inr header \<Rightarrow>
               (let m2 = m1\<lparr>format := h_format header, trackCount := h_trackCount header,
                            timeDivision := h_timeDivision header\<rparr>
                in case parse_tracks 0 (h_trackCount header) (start_parse m2) of
                     None \<Rightarrow> None
                   | Some (Inl e) \<Rightarrow> Some (Inl e)
                   | Some (Inr s) \<Rightarrow> Some (Inr (finish_parse s)))))"

section \<open>Validation\<close>

text \<open>
  Conversions of a value, as the operators of JavaScript apply them. They are modelled
  for the values that events hold by their type declaration: numbers, and strings in
  decimal integer notation; for other values the model takes what \<open>NaN\<close> gives.
\<close>

definition falsy :: "jsval \<Rightarrow> bool" where
  "falsy v \<longleftrightarrow> v = JUndefined \<or> v = JNum 0 \<or> v = JFrac 0 \<or> v = JStr []"

definition js_gt0 :: "jsval \<Rightarrow> bool" where
  "js_gt0 v =
     (case v of
        JNum n \<Rightarrow> n > 0
      | JFrac r \<Rightarrow> r > 0
      | JInfinity \<Rightarrow> True
      | JStr s \<Rightarrow> (case decimal_value s of Some n \<Rightarrow> n > 0 | None \<Rightarrow> False)
      | _ \<Rightarrow> False)"




text \<open>The issues, by the message of the source, with the values the message prints.\<close>

datatype issue =
    UnsupportedFormat int
  | TrackCountMismatch int nat
  | UnknownChunkType nat jsstring
  | ZeroLengthWithEvents nat nat
  | LengthWithoutEvents nat int
  | NegativeDeltaTime nat nat int
  | MissingNoteOrVelocity nat nat jsval
  | MissingNoteForNoteOff nat nat jsval
  | NoteOffNotActive nat nat "int option"
  | MissingMetaType nat nat
  | BadMetaLength nat nat string "int option"
  | MissingEndOfTrack nat
  | UnmatchedNoteOn nat int "int option"

record validate_state =
  issues :: "issue list"
  v_activeNotes :: "(int option \<times> int) list"
  gotEndOfTrack :: bool









section \<open>Used notes\<close>

text \<open>
  \<open>getUsedNotes\<close>. The filter compares the status of an event with the number
  \<open>0.90\<close>, nine tenths. A note that is neither a string nor a number is left out of the
  model of the \<open>Set\<close>.
\<close>

record UsedNote =
  noteNumber :: int
  noteString :: jsstring

definition type_is_0_90 :: "MidiTrackEvent \<Rightarrow> bool" where
  "type_is_0_90 ev = (case type ev of Some t \<Rightarrow> (of_int t :: rat) = 9 / 10 | None \<Rightarrow> False)"

definition is_object :: "jsval \<Rightarrow> bool" where
  "is_object v = (case v of JObj _ \<Rightarrow> True | JArr _ \<Rightarrow> True | JBytes _ \<Rightarrow> True | _ \<Rightarrow> False)"

definition used_note_number :: "MidiTrackEvent \<Rightarrow> int option" where
  "used_note_number ev =
     (if is_object (edata ev) \<and> has_prop (edata ev) ''velocity''
         \<and> js_gt0 (get_prop (edata ev) ''velocity'')
      then (case get_prop (edata ev) ''note'' of
              JStr s \<Rightarrow> parseInt10 s
            | JNum n \<Rightarrow> Some n
            | _ \<Rightarrow> None)
      else None)"

definition collect_note_numbers :: "Track list \<Rightarrow> int list" where
  "collect_note_numbers trks =
     foldl (\<lambda>noteNumbers ev.
              case used_note_number ev of
                Some n \<Rightarrow> if n \<in> set noteNumbers then noteNumbers else noteNumbers @ [n]
              | None \<Rightarrow> noteNumbers)
           [] (concat (map (\<lambda>trk. filter type_is_0_90 (events trk)) trks))"

fun used_notes_of :: "int list \<Rightarrow> error + UsedNote list" where
  "used_notes_of [] = Inr []"
| "used_notes_of (n # ns) =
     (case midiToNote n 2 default_noteNames of
        Inl e \<Rightarrow> Inl e
      | Inr name \<Rightarrow>
          (case used_notes_of ns of
             Inl e \<Rightarrow> Inl e
           | Inr rest \<Rightarrow> Inr (\<lparr>noteNumber = n, noteString = name\<rparr> # rest)))"

definition getUsedNotes :: "'a AudioMIDI_scheme \<Rightarrow> error + UsedNote list" where
  "getUsedNotes m = used_notes_of (sort (collect_note_numbers (chunks m)))"

section \<open>Writing events\<close>

text \<open>\<open>writeBytes\<close>, \<open>writeString\<close> in its default encoding, \<open>writeUInt16\<close>,
  \<open>writeUInt32\<close> and \<open>seek\<close> of \<open>DataBuffer\<close>.\<close>

fun write_at :: "jsval list \<Rightarrow> int \<Rightarrow> jsval list \<Rightarrow> jsval list" where
  "write_at buf off [] = buf"
| "write_at buf off (x # xs) = write_at (array_set buf off x) (off + 1) xs"

definition writeBytes :: "jsval list \<Rightarrow> 'a DataBuffer_scheme \<Rightarrow> 'a DataBuffer_scheme" where
  "writeBytes xs b =
     b\<lparr>buffer := write_at (buffer b) (offset b) xs, offset := offset b + int (length xs)\<rparr>"

definition writeString :: "jsstring \<Rightarrow> 'a DataBuffer_scheme \<Rightarrow> 'a DataBuffer_scheme" where
  "writeString s = writeBytes (map (\<lambda>c. JNum (js_and (int c) 0xFF)) s)"

definition writeUInt16 :: "int \<Rightarrow> 'a DataBuffer_scheme \<Rightarrow> 'a DataBuffer_scheme" where
  "writeUInt16 v b =
     b\<lparr>buffer := write_at (buffer b) (offset b)
                   [JNum (js_sar (js_and v 0xFF00) 8), JNum (js_and v 0xFF)],
       offset := offset b + 2\<rparr>"

definition writeUInt32 :: "int \<Rightarrow> 'a DataBuffer_scheme \<Rightarrow> 'a DataBuffer_scheme" where
  "writeUInt32 v b =
     b\<lparr>buffer := write_at (buffer b) (offset b)
                   [JNum (js_sar (js_and v 0xFF000000) 24), JNum (js_sar (js_and v 0x00FF0000) 16),
                    JNum (js_sar (js_and v 0x0000FF00) 8), JNum (js_and v 0x000000FF)],
       offset := offset b + 4\<rparr>"

definition seek :: "int \<Rightarrow> 'a DataBuffer_scheme \<Rightarrow> error + 'a DataBuffer_scheme" where
  "seek position b =
     (if position > offset b then advance (position - offset b) b
      else if position < offset b then rewind (offset b - position) b
      else Inr b)"

text \<open>
  \<open>new TextEncoder().encode(s)\<close>: UTF-8, a surrogate pair read as one code point and a
  lone surrogate as \<open>U+FFFD\<close>.
\<close>

fun utf8_encode :: "jsstring \<Rightarrow> nat list" where
  "utf8_encode [] = []"
| "utf8_encode [c] =
     (if c < 0x80 then [c]
      else if c < 0x800 then [0xC0 + c div 64, 0x80 + c mod 64]
      else if 0xD800 \<le> c \<and> c \<le> 0xDFFF then [0xEF, 0xBF, 0xBD]
      else [0xE0 + c div 4096, 0x80 + c div 64 mod 64, 0x80 + c mod 64])"
| "utf8_encode (c # d # ds) =
     (if c < 0x80 then c # utf8_encode (d # ds)
      else if c < 0x800 then [0xC0 + c div 64, 0x80 + c mod 64] @ utf8_encode (d # ds)
      else if 0xD800 \<le> c \<and> c \<le> 0xDBFF \<and> 0xDC00 \<le> d \<and> d \<le> 0xDFFF then
        (let cp = 0x10000 + (c - 0xD800) * 1024 + (d - 0xDC00)
         in [0xF0 + cp div 262144, 0x80 + cp div 4096 mod 64, 0x80 + cp div 64 mod 64,
             0x80 + cp mod 64] @ utf8_encode ds)
      else if 0xD800 \<le> c \<and> c \<le> 0xDFFF then [0xEF, 0xBF, 0xBD] @ utf8_encode (d # ds)
      else [0xE0 + c div 4096, 0x80 + c div 64 mod 64, 0x80 + c mod 64]
           @ utf8_encode (d # ds))"

text \<open>\<open>writeEventData\<close>.\<close>

definition writeEventData :: "jsval \<Rightarrow> 'a DataBuffer_scheme \<Rightarrow> error + 'a DataBuffer_scheme" where
  "writeEventData v b =
     (case v of
        JBytes bs \<Rightarrow> Inr (writeBytes (map (\<lambda>x. JNum (uint x)) bs) b)
      | JArr xs \<Rightarrow>
          if JUndefined \<in> set xs then Inl InvalidData
          else Inr (fold writeUInt8 xs b)
      | JStr s \<Rightarrow> Inr (writeBytes (map (\<lambda>x. JNum (int x)) (utf8_encode s)) b)
      | _ \<Rightarrow> Inl InvalidWriteEventData)"

text \<open>The 32-bit integer that \<open>>>\<close> and \<open>&\<close> make of a value.\<close>

definition val_ToInt32 :: "jsval \<Rightarrow> int" where
  "val_ToInt32 v =
     (case v of
        JNum n \<Rightarrow> ToInt32 n
      | JFrac r \<Rightarrow> ToInt32 (if 0 \<le> r then \<lfloor>r\<rfloor> else \<lceil>r\<rceil>)
      | JStr s \<Rightarrow> (case decimal_value s of Some n \<Rightarrow> ToInt32 n | None \<Rightarrow> 0)
      | _ \<Rightarrow> 0)"

text \<open>
  \<open>writeEvent\<close>. Reading a property of \<open>undefined\<close> raises a \<open>TypeError\<close>, also
  where the source does so while it builds the message of another error. The checks
  written \<open>!x\<close> take 0 and the empty string for a missing value; those written
  \<open>x === undefined\<close> do not.
\<close>

definition write_fields ::
  "error \<Rightarrow> jsval \<Rightarrow> string list \<Rightarrow> 'a DataBuffer_scheme \<Rightarrow> error + 'a DataBuffer_scheme" where
  "write_fields err d names b =
     (if d = JUndefined then Inl TypeError
      else if \<exists>n\<in>set names. falsy (get_prop d n) then Inl err
      else writeEventData (JArr (map (get_prop d) names)) b)"

definition write_meta ::
  "int option \<Rightarrow> jsval \<Rightarrow> 'a DataBuffer_scheme \<Rightarrow> error + 'a DataBuffer_scheme" where
  "write_meta mty d b =
     (case mty of
        None \<Rightarrow> Inl TypeError
      | Some mt \<Rightarrow>
          if mt = 0x00 then
            (if d = JUndefined then Inl TypeError
             else if falsy (get_prop d ''sequenceNumber'') then Inl InvalidSequenceNumber
             else writeEventData
                    (JArr [JNum (js_sar (val_ToInt32 (get_prop d ''sequenceNumber'')) 8),
                           JNum (js_and (val_ToInt32 (get_prop d ''sequenceNumber'')) 0xFF)]) b)
          else if 0x01 \<le> mt \<and> mt \<le> 0x09 then
            (if falsy d then Inl InvalidTextData else writeEventData d b)
          else if mt = 0x20 \<or> mt = 0x21 then
            (if falsy d then Inl InvalidMetaData else Inr (writeUInt8 d b))
          else if mt = 0x2F then Inr b
          else if mt = 0x51 then
            (if falsy d then Inl InvalidMetaData
             else writeEventData (JArr (map (get_prop d) [''byte1'', ''byte2'', ''byte3''])) b)
          else if mt = 0x54 then
            (if falsy d then Inl InvalidMetaData
             else writeEventData
                    (JArr (map (get_prop d)
                             [''hourByte'', ''minute'', ''second'', ''frame'', ''subFrame''])) b)
          else if mt = 0x58 then
            write_fields InvalidTimeSignature d
              [''numerator'', ''denominator'', ''metronome'', ''thirtySecondNotes''] b
          else if mt = 0x59 then
            write_fields InvalidKeySignature d [''keySignature'', ''majorOrMinor''] b
          else if mt = 0x7F then
            (if falsy d then Inl InvalidMetaData else writeEventData d b)
          else Inr b)"

definition writeEvent :: "MidiTrackEvent \<Rightarrow> 'a DataBuffer_scheme \<Rightarrow> error + 'a DataBuffer_scheme" where
  "writeEvent ev b0 =
     (let d = edata ev;
          statusByte = (case channel ev of
                          Some c \<Rightarrow> Some (js_or (case type ev of Some t \<Rightarrow> t | None \<Rightarrow> 0)
                                                 (js_and c 0x0F))
                        | None \<Rightarrow> type ev)
      in
      case statusByte of
        None \<Rightarrow> Inl InvalidStatusByte
      | Some sb \<Rightarrow>
          if sb = 0 then Inl InvalidStatusByte
          else
            (case deltaTime ev of
               None \<Rightarrow> Inl InvalidDeltaTime
             | Some dt \<Rightarrow>
                 (let b = writeUInt8 (JNum sb) (writeVariableLengthValue dt b0) in
                  case type ev of
                    None \<Rightarrow> Inl TypeError
                  | Some t \<Rightarrow>
                      if t = 0x80 \<or> t = 0x90 \<or> t = 0xA0 then
                        (if \<not> is_object d \<or> \<not> has_prop d ''note''
                            \<or> get_prop d ''note'' = JUndefined then Inl InvalidNoteValue
                         else if \<not> is_object d \<or> \<not> has_prop d ''velocity''
                            \<or> get_prop d ''velocity'' = JUndefined then Inl InvalidVelocityValue
                         else writeEventData
                                (JArr [get_prop d ''note'', get_prop d ''velocity'']) b)
                      else if t = 0xB0 then
                        write_fields InvalidController d [''controllerNumber'', ''value''] b
                      else if t = 0xC0 then
                        write_fields InvalidProgramNumber d [''programNumber''] b
                      else if t = 0xD0 then
                        write_fields InvalidPressureAmount d [''pressureAmount''] b
                      else if t = 0xE0 then
                        write_fields InvalidPitchBend d [''lsb'', ''msb''] b
                      else if t = 0xF0 then
                        (if \<not> is_object d \<or> \<not> has_prop d ''manufacturerId''
                            \<or> falsy (get_prop d ''manufacturerId'') \<or> \<not> has_prop d ''data''
                            \<or> falsy (get_prop d ''data'')
                         then (if d = JUndefined then Inl TypeError else Inl InvalidSysEx)
                         else
                           (case writeEventData (get_prop d ''data'')
                                   (writeUInt8 (get_prop d ''manufacturerId'') b) of
                              Inl e \<Rightarrow> Inl e
                            | Inr b' \<Rightarrow> Inr (writeUInt8 (JNum 0xF7) b')))
                      else if t = 0xF3 then
                        write_fields InvalidSongNumber d [''songNumber''] b
                      else if t \<in> {0xF6, 0xF7, 0xF8, 0xFA, 0xFB, 0xFC, 0xFE} then Inr b
                      else if t = 0xFF then
                        write_meta (metaType ev) d
                          (writeVariableLengthValue
                             (case metaEventLength ev of Some l \<Rightarrow> l | None \<Rightarrow> 0)
                             (writeUInt8 (case metaType ev of Some mt \<Rightarrow> JNum mt
                                                            | None \<Rightarrow> JUndefined) b))
                      else Inr b)))"

subsection \<open>\<open>writeChunk\<close> and \<open>saveToDataBuffer\<close>\<close>

fun write_events :: "MidiTrackEvent list \<Rightarrow> 'a DataBuffer_scheme \<Rightarrow> error + 'a DataBuffer_scheme" where
  "write_events [] b = Inr b"
| "write_events (ev # evs) b =
     (case writeEvent ev b of Inl e \<Rightarrow> Inl e | Inr b' \<Rightarrow> write_events evs b')"

text \<open>\<open>writeChunk\<close> returns the buffer and the chunk, whose \<open>chunkLength\<close> it sets.\<close>

definition writeChunk ::
  "Track \<Rightarrow> 'a DataBuffer_scheme \<Rightarrow> error + ('a DataBuffer_scheme \<times> Track)" where
  "writeChunk chunk b =
     (if ctype chunk = str ''MTrk'' then
        (let b1 = writeString (str ''MTrk'') b;
             chunkLengthPosition = offset b1;
             b2 = writeUInt32 0 b1;
             startPosition = offset b2
         in case write_events (events chunk) b2 of
              Inl e \<Rightarrow> Inl e
            | Inr b3 \<Rightarrow>
                (let endPosition = offset b3;
                     len = endPosition - startPosition
                 in case seek chunkLengthPosition b3 of
                      Inl e \<Rightarrow> Inl e
                    | Inr b4 \<Rightarrow>
                        (case seek endPosition (writeUInt32 len b4) of
                           Inl e \<Rightarrow> Inl e
                         | Inr b5 \<Rightarrow> Inr (b5, chunk\<lparr>chunkLength := len\<rparr>))))
      else Inr (b, chunk))"

fun write_chunks ::
  "Track list \<Rightarrow> 'a DataBuffer_scheme \<Rightarrow> error + ('a DataBuffer_scheme \<times> Track list)" where
  "write_chunks [] b = Inr (b, [])"
| "write_chunks (c # cs) b =
     (case writeChunk c b of
        Inl e \<Rightarrow> Inl e
      | Inr (b', c') \<Rightarrow>
          (case write_chunks cs b' of
             Inl e \<Rightarrow> Inl e
           | Inr (b'', cs') \<Rightarrow> Inr (b'', c' # cs')))"

text \<open>\<open>saveToDataBuffer\<close> returns the committed buffer; the object comes back with the
  chunk lengths that \<open>writeChunk\<close> has set.\<close>

definition saveToDataBuffer :: "'a AudioMIDI_scheme \<Rightarrow> error + (DataBuffer \<times> 'a AudioMIDI_scheme)" where
  "saveToDataBuffer m =
     (let b = writeUInt16 (case timeDivision m of Some td \<Rightarrow> td | None \<Rightarrow> 0)
                (writeUInt16 (trackCount m)
                  (writeUInt16 (format m)
                    (writeUInt32 6 (writeString (str ''MThd'') DataBuffer_new))))
      in case write_chunks (chunks m) b of
           Inl e \<Rightarrow> Inl e
         | Inr (b', cs) \<Rightarrow> Inr (commit b', m\<lparr>chunks := cs\<rparr>))"

subsection \<open>The header and the track chunks of the output, as the specification has them\<close>

text \<open>
  The specification's description of what \<open>saveToDataBuffer\<close> writes, to compare with
  the function above: a 16-bit value as two bytes, the higher first; the header
  \<open>MThd\<close>, the length 6 and the three fields; the chunks whose type is \<open>MTrk\<close>.
\<close>

definition be16 :: "int \<Rightarrow> byte list" where
  "be16 v = [word_of_int (v div 256), word_of_int v]"

definition MThd_header :: "int \<Rightarrow> int \<Rightarrow> int option \<Rightarrow> byte list" where
  "MThd_header f n td =
     [0x4D, 0x54, 0x68, 0x64, 0, 0, 0, 6] @ be16 f @ be16 n
       @ be16 (case td of Some t \<Rightarrow> t | None \<Rightarrow> 0)"

definition is_MTrk :: "Track \<Rightarrow> bool" where
  "is_MTrk c \<longleftrightarrow> ctype c = str ''MTrk''"

subsection \<open>The quantities of the note balance\<close>





fun issue_track :: "issue \<Rightarrow> nat option" where
  "issue_track (UnsupportedFormat _) = None"
| "issue_track (TrackCountMismatch _ _) = None"
| "issue_track (UnknownChunkType t _) = Some t"
| "issue_track (ZeroLengthWithEvents t _) = Some t"
| "issue_track (LengthWithoutEvents t _) = Some t"
| "issue_track (NegativeDeltaTime t _ _) = Some t"
| "issue_track (MissingNoteOrVelocity t _ _) = Some t"
| "issue_track (MissingNoteForNoteOff t _ _) = Some t"
| "issue_track (NoteOffNotActive t _ _) = Some t"
| "issue_track (MissingMetaType t _) = Some t"
| "issue_track (BadMetaLength t _ _ _) = Some t"
| "issue_track (MissingEndOfTrack t) = Some t"
| "issue_track (UnmatchedNoteOn t _ _) = Some t"

definition unmatched_count :: "issue \<Rightarrow> int" where
  "unmatched_count i = (case i of UnmatchedNoteOn _ c _ \<Rightarrow> c | _ \<Rightarrow> 0)"










subsection \<open>Events and files used in the statements below\<close>

definition note_on_event :: "int \<Rightarrow> int \<Rightarrow> int \<Rightarrow> int \<Rightarrow> MidiTrackEvent" where
  "note_on_event dt ch n v =
     \<lparr>deltaTime = Some dt, type = Some (0x90 + ch), label = Some (str ''Note On''),
      edata = JObj [(''note'', JNum n), (''velocity'', JNum v)],
      metaType = None, metaEventLength = None, channel = Some ch\<rparr>"

definition end_of_track_event :: "int \<Rightarrow> MidiTrackEvent" where
  "end_of_track_event dt =
     \<lparr>deltaTime = Some dt, type = Some 0xFF, label = Some (str ''End of Track''),
      edata = JStr [], metaType = Some 0x2F, metaEventLength = Some 0, channel = None\<rparr>"

text \<open>
  A format 1 file of two tracks, each holding only End of Track:
  \<open>MThd 00000006 0001 0002 01E0 | MTrk 00000004 00 FF 2F 00 | MTrk 00000004 00 FF 2F 00\<close>.
\<close>

definition two_track_file :: "byte list" where
  "two_track_file =
     [0x4D, 0x54, 0x68, 0x64, 0, 0, 0, 6, 0, 1, 0, 2, 0x01, 0xE0,
      0x4D, 0x54, 0x72, 0x6B, 0, 0, 0, 4, 0x00, 0xFF, 0x2F, 0x00,
      0x4D, 0x54, 0x72, 0x6B, 0, 0, 0, 4, 0x00, 0xFF, 0x2F, 0x00]"

text \<open>
  A header that declares the length 8 and carries two more bytes before the first track:
  \<open>MThd 00000008 0000 0001 01E0 0000 | MTrk 00000004 00 FF 2F 00\<close>.
\<close>

definition oversized_header_file :: "byte list" where
  "oversized_header_file =
     [0x4D, 0x54, 0x68, 0x64, 0, 0, 0, 8, 0, 0, 0, 1, 0x01, 0xE0, 0, 0,
      0x4D, 0x54, 0x72, 0x6B, 0, 0, 0, 4, 0x00, 0xFF, 0x2F, 0x00]"



text \<open>The running status file of the specification, with format 0 and 480 pulses per
  quarter note, and a Control Change event that sets controller 7 to the value 0.\<close>

definition running_status_file :: "byte list" where
  "running_status_file =
     [0x4D, 0x54, 0x68, 0x64, 0, 0, 0, 6, 0, 0, 0, 1, 0x01, 0xE0,
      0x4D, 0x54, 0x72, 0x6B, 0, 0, 0, 10,
      0x00, 0x90, 0x3C, 0x40, 0x00, 0x3E, 0x40, 0x00, 0x40, 0x40]"

definition control_change_zero :: MidiTrackEvent where
  "control_change_zero =
     \<lparr>deltaTime = Some 0, type = Some 0xB0, label = Some (str ''Controller''),
      edata = JObj [(''controllerNumber'', JNum 7), (''value'', JNum 0)],
      metaType = None, metaEventLength = None, channel = Some 0\<rparr>"

text \<open>An object that counts two tracks and holds a chunk of another type before its one
  \<open>MTrk\<close> chunk.\<close>

definition mixed_chunks_midi :: AudioMIDI where
  "mixed_chunks_midi =
     (AudioMIDI_from [])\<lparr>trackCount := 2, chunks :=
        [\<lparr>ctype = str ''XFIH'', chunkLength = 4, events = [end_of_track_event 0]\<rparr>,
         \<lparr>ctype = str ''MTrk'', chunkLength = 0,
          events = [note_on_event 0 0 60 100, end_of_track_event 0]\<rparr>]\<rparr>"

text \<open>
  A Note Off event as \<open>parse\<close> builds it, and two tracks that start with a Note On for
  60 with the velocity 100 at tick 0: in the first the next event, 240 ticks later, is a
  Note On for 60 with the velocity 0, in the second it is a Note Off for 60; both end with
  End of Track. \<open>note_pair_state\<close> is the state of \<open>parse\<close> on the second file when the
  loop over the events of its track starts.
\<close>

definition note_off_event :: "int \<Rightarrow> int \<Rightarrow> int \<Rightarrow> int \<Rightarrow> int \<Rightarrow> MidiTrackEvent" where
  "note_off_event dt ch n v len =
     \<lparr>deltaTime = Some dt, type = Some (0x80 + ch), label = Some (str ''Note Off''),
      edata = JObj [(''note'', JStr (int_to_string n)), (''velocity'', JNum v),
                    (''length'', JNum len)],
      metaType = None, metaEventLength = None, channel = Some ch\<rparr>"

definition zero_velocity_file :: "byte list" where
  "zero_velocity_file =
     [0x4D, 0x54, 0x68, 0x64, 0, 0, 0, 6, 0, 0, 0, 1, 0x01, 0xE0,
      0x4D, 0x54, 0x72, 0x6B, 0, 0, 0, 13,
      0x00, 0x90, 0x3C, 0x64, 0x81, 0x70, 0x90, 0x3C, 0x00, 0x00, 0xFF, 0x2F, 0x00]"

definition note_pair_file :: "byte list" where
  "note_pair_file =
     [0x4D, 0x54, 0x68, 0x64, 0, 0, 0, 6, 0, 0, 0, 1, 0x01, 0xE0,
      0x4D, 0x54, 0x72, 0x6B, 0, 0, 0, 13,
      0x00, 0x90, 0x3C, 0x64, 0x81, 0x70, 0x80, 0x3C, 0x00, 0x00, 0xFF, 0x2F, 0x00]"

definition note_pair_state :: parse_state where
  "note_pair_state =
     (start_parse ((AudioMIDI_from note_pair_file)\<lparr>trackCount := 1\<rparr>))\<lparr>offset := 22,
        track := \<lparr>ctype = str ''MTrk'', chunkLength = 13, events = []\<rparr>\<rparr>"

subsection \<open>Facts about the 32-bit operators and the 7-bit groups\<close>

lemma and127: "(x::int) AND 127 = x mod 128"
proof -
  have "(x::int) AND mask 7 = x mod 2 ^ 7"
    by (simp only: take_bit_eq_mask[symmetric] take_bit_eq_mod)
  then show ?thesis by (simp add: mask_eq_exp_minus_1)
qed

lemma low7_and128: assumes "0 \<le> h" "h < 128" shows "(h::int) AND 128 = 0"
proof -
  have g: "take_bit n k AND 2 ^ n = 0" for n and k :: int
    by (rule bit_eqI) (simp add: bit_simps)
  have "take_bit 7 h = h" using assms by (simp add: take_bit_int_eq_self)
  then show ?thesis using g[of 7 h] by simp
qed

lemma low7_or128: assumes "0 \<le> h" "h < 128" shows "(h::int) OR 128 = h + 128"
  using low7_and128[OF assms] by (simp add: disjunctive_add_eq_or)

lemma high_and128: assumes "0 \<le> h" "h < 128" shows "(h + 128 :: int) AND 128 = 128"
proof -
  have g: "(k OR 2 ^ n) AND 2 ^ n = 2 ^ n" for n and k :: int
    by (rule bit_eqI) (auto simp: bit_simps)
  show ?thesis using g[of h 7] low7_or128[OF assms] by simp
qed

lemma js_and_7F: "- (2 ^ 31) \<le> v \<Longrightarrow> v < 2 ^ 31 \<Longrightarrow> js_and v 0x7F = v mod 128"
  by (simp add: js_and_def ToInt32_id and127)

lemma js_sar_7: "- (2 ^ 31) \<le> v \<Longrightarrow> v < 2 ^ 31 \<Longrightarrow> js_sar v 7 = v div 128"
  by (simp add: js_sar_def ToInt32_id)

lemma js_or_80: "0 \<le> h \<Longrightarrow> h < 128 \<Longrightarrow> js_or h 0x80 = h + 128"
  by (simp add: js_or_def ToInt32_id low7_or128)

lemma js_and_80_low: "0 \<le> h \<Longrightarrow> h < 128 \<Longrightarrow> js_and h 0x80 = 0"
  by (simp add: js_and_def ToInt32_id low7_and128)

lemma js_and_80_high: "0 \<le> h \<Longrightarrow> h < 128 \<Longrightarrow> js_and (h + 128) 0x80 = 128"
  by (simp add: js_and_def ToInt32_id high_and128)

lemma js_shl_7: "0 \<le> v \<Longrightarrow> v < 2 ^ 24 \<Longrightarrow> js_shl v 7 = v * 128"
  by (simp add: js_shl_def ToInt32_id)

declare vlv_groups.simps [simp del]
declare readVariableLengthValues_loop.simps [simp del]

text \<open>The bytes that \<open>writeVariableLengthValue\<close> leaves in a fresh buffer.\<close>

definition vlv_bytes :: "int \<Rightarrow> byte list" where
  "vlv_bytes n = data (commit (writeVariableLengthValue n DataBuffer_new))"

lemma vlv_groups_unfold:
  assumes "0 \<le> v" "v < 2 ^ 31"
  shows "vlv_groups v = v mod 128 # (if 0 < v div 128 then vlv_groups (v div 128) else [])"
  using assms by (subst vlv_groups.simps) (simp add: js_and_7F js_sar_7 Let_def)

definition groups_ok :: "int \<Rightarrow> int list \<Rightarrow> bool" where
  "groups_ok v gs \<longleftrightarrow>
     gs \<noteq> [] \<and> (\<forall>g\<in>set gs. 0 \<le> g \<and> g < 128) \<and> foldr (\<lambda>g a. g + 128 * a) gs 0 = v \<and>
     v < 128 ^ length gs \<and> (1 < length gs \<longrightarrow> 128 ^ (length gs - 1) \<le> v)"

lemma vlv_groups_ok: "0 \<le> v \<Longrightarrow> v < 2 ^ 31 \<Longrightarrow> groups_ok v (vlv_groups v)"
proof (induction v rule: vlv_groups.induct)
  case (1 v)
  show ?case
  proof (cases "0 < v div 128")
    case False
    then have small: "v < 128" using "1.prems" by (simp add: pos_imp_zdiv_pos_iff)
    have "vlv_groups v = [v mod 128]" using vlv_groups_unfold[OF "1.prems"] False by simp
    then show ?thesis using small "1.prems" by (simp add: groups_ok_def)
  next
    case True
    let ?w = "v div 128"
    have w: "0 \<le> ?w" "?w < 2 ^ 31" using "1.prems" True by auto
    have sar: "js_sar v 7 = ?w" using "1.prems" by (simp add: js_sar_7)
    have ih: "groups_ok ?w (vlv_groups ?w)"
      using "1.IH"[of "js_sar v 7"] True w sar by simp
    have u: "vlv_groups v = v mod 128 # vlv_groups ?w"
      using vlv_groups_unfold[OF "1.prems"] True by simp
    let ?gs = "vlv_groups ?w"
    have v: "v = v mod 128 + 128 * ?w" by simp
    have len: "0 < length ?gs" using ih by (simp add: groups_ok_def)
    have up: "v < 128 ^ length (vlv_groups v)"
    proof -
      have "?w < 128 ^ length ?gs" using ih by (simp add: groups_ok_def)
      then have "?w + 1 \<le> 128 ^ length ?gs" by simp
      then have "128 * (?w + 1) \<le> 128 * 128 ^ length ?gs" by simp
      moreover have "v < 128 * (?w + 1)" using v by (smt (verit) pos_mod_bound)
      ultimately show ?thesis using u by simp
    qed
    have lo: "128 ^ (length (vlv_groups v) - 1) \<le> v"
    proof (cases "1 < length ?gs")
      case True
      then have "128 ^ (length ?gs - 1) \<le> ?w" using ih by (simp add: groups_ok_def)
      then have "128 * 128 ^ (length ?gs - 1) \<le> 128 * ?w" by simp
      moreover have "128 * 128 ^ (length ?gs - 1) = (128::int) ^ length ?gs"
        using len by (metis power_minus_mult mult.commute)
      moreover have "128 * ?w \<le> v" using v "1.prems" by (smt (verit) pos_mod_sign)
      ultimately show ?thesis using u by simp
    next
      case False
      then have "length ?gs = 1" using len by (cases ?gs) auto
      moreover have "128 \<le> v" using True "1.prems" by (simp add: pos_imp_zdiv_pos_iff)
      ultimately show ?thesis using u by simp
    qed
    have m: "0 \<le> v mod 128" "v mod 128 < 128" by simp_all
    have ih': "\<forall>g\<in>set ?gs. 0 \<le> g \<and> g < 128" "foldr (\<lambda>g a. g + 128 * a) ?gs 0 = ?w"
      using ih by (simp_all add: groups_ok_def)
    have a: "vlv_groups v \<noteq> []" by (simp add: u)
    have b: "\<forall>g\<in>set (vlv_groups v). 0 \<le> g \<and> g < 128"
      unfolding u using m ih'(1) by simp
    have c: "foldr (\<lambda>g a. g + 128 * a) (vlv_groups v) 0 = v"
      unfolding u using ih'(2) by simp
    show ?thesis
      unfolding groups_ok_def using a b c up lo by blast
  qed
qed

subsection \<open>What the writer leaves and what the reader returns\<close>

lemma fold_writeUInt8:
  "offset b = int (length (buffer b)) \<Longrightarrow>
   buffer (fold (\<lambda>h. writeUInt8 (f h)) xs b) = buffer b @ map f xs \<and>
   offset (fold (\<lambda>h. writeUInt8 (f h)) xs b) = int (length (buffer b) + length xs)"
proof (induction xs arbitrary: b)
  case Nil
  then show ?case by simp
next
  case (Cons x xs)
  let ?b = "writeUInt8 (f x) b"
  have "buffer ?b = buffer b @ [f x]" "offset ?b = int (length (buffer ?b))"
    using Cons.prems by (simp_all add: writeUInt8_def array_set_def)
  then show ?case using Cons.IH[of ?b] by simp
qed

lemma vlv_bytes_eq:
  assumes "vlv_groups n = g # gs"
  shows "vlv_bytes n = map (\<lambda>h. ToUint8 (JNum (js_or h 0x80))) (rev gs) @ [ToUint8 (JNum g)]"
proof -
  let ?b = "fold (\<lambda>h. writeUInt8 (JNum (js_or h 0x80))) (rev gs) DataBuffer_new"
  have "buffer ?b = map (\<lambda>h. JNum (js_or h 0x80)) (rev gs) \<and> offset ?b = int (length (rev gs))"
    using fold_writeUInt8[of DataBuffer_new "\<lambda>h. JNum (js_or h 0x80)" "rev gs"]
    by (simp add: DataBuffer_new_def)
  then have "buffer (writeUInt8 (JNum g) ?b) = map (\<lambda>h. JNum (js_or h 0x80)) (rev gs) @ [JNum g]"
    by (simp add: writeUInt8_def array_set_def)
  then show ?thesis
    by (simp add: vlv_bytes_def writeVariableLengthValue_def assms commit_def)
qed

lemma drop_ConsD:
  assumes "drop k xs = y # ys"
  shows "k < length xs \<and> xs ! k = y \<and> drop (Suc k) xs = ys"
proof -
  have "k < length xs" using assms by (metis drop_all list.distinct(1) not_le)
  moreover have "xs ! k = y" using assms by (rule nth_via_drop)
  moreover have "drop (Suc k) xs = ys" using assms by (metis drop_Suc list.sel(3) tl_drop)
  ultimately show ?thesis by simp
qed

lemma uint_byte: "0 \<le> x \<Longrightarrow> x < 256 \<Longrightarrow> uint (word_of_int x :: byte) = x"
  by (simp add: uint_word_of_int_eq take_bit_int_eq_self)

lemma js_and_7F_low: assumes "0 \<le> g" "g < 128" shows "js_and g 0x7F = g"
proof -
  have "- (2 ^ 31) \<le> g" "g < 2 ^ 31" using assms by simp_all
  then have "js_and g 0x7F = g mod 128" by (rule js_and_7F)
  then show ?thesis using assms by simp
qed

lemma js_and_7F_high: assumes "0 \<le> g" "g < 128" shows "js_and (g + 128) 0x7F = g"
proof -
  have "- (2 ^ 31) \<le> g + 128" "g + 128 < 2 ^ 31" using assms by simp_all
  then have "js_and (g + 128) 0x7F = (g + 128) mod 128" by (rule js_and_7F)
  then show ?thesis using assms by simp
qed

lemma rvlv_loop_read:
  assumes "\<not> writing b" "offset b = int k"
    "drop k (data b) = map (\<lambda>h. word_of_int (h + 128)) hs @ [word_of_int g]"
    "\<forall>h\<in>set hs. 0 \<le> h \<and> h < 128" "0 \<le> g" "g < 128"
    "0 \<le> val" "(val + 1) * 128 ^ (length hs + 1) \<le> 2 ^ 31"
  shows "readVariableLengthValues_loop val b =
           Inr (foldl (\<lambda>a h. a * 128 + h) val (hs @ [g]), b\<lparr>offset := int (k + length hs + 1)\<rparr>)"
  using assms
proof (induction hs arbitrary: val b k)
  case Nil
  have d: "k < length (data b)" "data b ! k = word_of_int g"
    using drop_ConsD[of k "data b" "word_of_int g" "[]"] Nil.prems(3) by simp_all
  have "uint (word_of_int g :: byte) = g" using Nil.prems(5,6) by (intro uint_byte) simp_all
  then have u: "uint (data b ! k) = g" by (simp only: d(2))
  have rd: "readUInt8 b = Inr (g, b\<lparr>offset := int k + 1\<rparr>)"
    using d(1) u Nil.prems(1,2) by (simp add: readUInt8_def available_def remainingBytes_def data_at_def)
  have v: "val < 2 ^ 24" using Nil.prems(8) by simp
  have step: "js_shl val 7 + js_and g 0x7F = val * 128 + g"
    using js_shl_7[OF Nil.prems(7) v] js_and_7F_low[OF Nil.prems(5,6)] by simp
  have stop: "js_and g 0x80 = 0" using Nil.prems(5,6) by (rule js_and_80_low)
  show ?case
    by (subst readVariableLengthValues_loop.simps) (simp add: rd step stop)
next
  case (Cons h hs)
  have h: "0 \<le> h" "h < 128" using Cons.prems(4) by simp_all
  have d: "k < length (data b)" "data b ! k = word_of_int (h + 128)"
     "drop (Suc k) (data b) = map (\<lambda>h. word_of_int (h + 128)) hs @ [word_of_int g]"
    using drop_ConsD[of k "data b" "word_of_int (h + 128)"] Cons.prems(3) by simp_all
  let ?b = "b\<lparr>offset := int k + 1\<rparr>"
  have "uint (word_of_int (h + 128) :: byte) = h + 128" using h by (intro uint_byte) simp_all
  then have u: "uint (data b ! k) = h + 128" by (simp only: d(2))
  have rd: "readUInt8 b = Inr (h + 128, ?b)"
    using d(1) u Cons.prems(1,2) by (simp add: readUInt8_def available_def remainingBytes_def data_at_def)
  have len: "length (data b) - Suc k = length hs + 1"
    using arg_cong[OF d(3), of length] by simp
  have rem: "remainingBytes ?b > 0" using len d(1) by (simp add: remainingBytes_def)
  define N :: int where "N = 128 ^ (length hs + 1)"
  have N1: "1 \<le> N" unfolding N_def by (rule one_le_power) simp
  have e: "(128::int) ^ (length (h # hs) + 1) = 128 * N" by (simp add: N_def)
  have p8: "(val + 1) * 128 * N \<le> 2 ^ 31"
    using Cons.prems(8) unfolding e by (simp only: mult.assoc)
  have "(val + 1) * 128 * 1 \<le> (val + 1) * 128 * N"
    using N1 Cons.prems(7) by (intro mult_left_mono) auto
  then have v: "val < 2 ^ 24" using p8 by simp
  let ?v = "val * 128 + h"
  have step: "js_shl val 7 + js_and (h + 128) 0x7F = ?v"
    using js_shl_7[OF Cons.prems(7) v] js_and_7F_high[OF h] by simp
  have go: "js_and (h + 128) 0x80 = 128" using h by (rule js_and_80_high)
  have "(?v + 1) * N \<le> (val + 1) * 128 * N"
    using h N1 by (intro mult_right_mono) auto
  then have bound: "(?v + 1) * 128 ^ (length hs + 1) \<le> 2 ^ 31"
    using p8 unfolding N_def by linarith
  have ih: "readVariableLengthValues_loop ?v ?b =
      Inr (foldl (\<lambda>a h. a * 128 + h) ?v (hs @ [g]), ?b\<lparr>offset := int (Suc k + length hs + 1)\<rparr>)"
    using Cons.IH[of ?b "Suc k" ?v] Cons.prems h d bound by simp
  show ?case
    by (subst readVariableLengthValues_loop.simps)
       (simp add: rd step go rem ih)
qed

section \<open>The variable length value round trip\<close>

lemma high_byte_and: assumes "0 \<le> h" "h < 128" shows "(word_of_int (h + 128) :: byte) AND 0x80 = 0x80"
proof -
  have "(word_of_int (h + 128) :: byte) AND word_of_int 128 = word_of_int ((h + 128) AND 128)"
    by (simp only: of_int_and_eq)
  then show ?thesis using high_and128[OF assms] by simp
qed

lemma low_byte_and: assumes "0 \<le> h" "h < 128" shows "(word_of_int h :: byte) AND 0x80 = 0"
proof -
  have "(word_of_int h :: byte) AND word_of_int 128 = word_of_int (h AND 128)"
    by (simp only: of_int_and_eq)
  then show ?thesis using low7_and128[OF assms] by simp
qed

text \<open>
  Claim C3. For every integer \<open>n\<close> with \<open>0 \<le> n < 2^28\<close>: reading the bytes that
  \<open>writeVariableLengthValue\<close> wrote for \<open>n\<close> with \<open>readVariableLengthValues\<close> returns
  \<open>n\<close> (and consumes all of them); the number of bytes is the least number of 7-bit
  groups that hold \<open>n\<close>; for \<open>n = 0\<close> it is the single byte 0; for \<open>n > 0\<close> every
  byte but the last has its high bit set and the last has it clear.
\<close>

theorem vlq_roundtrip_minimal:
  assumes "0 \<le> n" "n < 2 ^ 28"
  shows "readVariableLengthValues (DataBuffer_from (vlv_bytes n)) =
           Inr (n, (DataBuffer_from (vlv_bytes n))\<lparr>offset := int (length (vlv_bytes n))\<rparr>)
       \<and> n < 128 ^ length (vlv_bytes n)
       \<and> (\<forall>k>0. n < 128 ^ k \<longrightarrow> length (vlv_bytes n) \<le> k)
       \<and> (n = 0 \<longrightarrow> vlv_bytes n = [0])
       \<and> (0 < n \<longrightarrow> (\<forall>x\<in>set (butlast (vlv_bytes n)). x AND 0x80 = 0x80)
                     \<and> last (vlv_bytes n) AND 0x80 = 0)"
proof -
  have n31: "n < 2 ^ 31" using assms(2) by simp
  have ok: "groups_ok n (vlv_groups n)" using assms(1) n31 by (rule vlv_groups_ok)
  then obtain g gs where G: "vlv_groups n = g # gs"
    by (cases "vlv_groups n") (auto simp: groups_ok_def)
  have rng: "0 \<le> g" "g < 128" "\<forall>h\<in>set gs. 0 \<le> h \<and> h < 128"
    using ok G by (auto simp: groups_ok_def)
  have val: "foldr (\<lambda>g a. g + 128 * a) (g # gs) 0 = n"
    using ok unfolding G groups_ok_def by blast
  have up: "n < 128 ^ (length gs + 1)"
    using ok unfolding G groups_ok_def by simp
  have lo: "1 < length gs + 1 \<longrightarrow> 128 ^ length gs \<le> n"
    using ok unfolding G groups_ok_def by simp
  let ?hs = "rev gs"
  have "map (\<lambda>h. ToUint8 (JNum (js_or h 0x80))) ?hs = map (\<lambda>h. word_of_int (h + 128)) ?hs"
    using rng(3) by (intro map_cong) (auto simp: ToUint8_def js_or_80)
  then have bytes: "vlv_bytes n = map (\<lambda>h. word_of_int (h + 128)) ?hs @ [word_of_int g]"
    using vlv_bytes_eq[OF G] by (simp add: ToUint8_def)
  have len: "length (vlv_bytes n) = length gs + 1" by (simp add: bytes)
  have short: "length gs < 4"
  proof (cases "gs = []")
    case True then show ?thesis by simp
  next
    case False
    then have "0 < length gs" by simp
    then have "(128::int) ^ length gs \<le> n" using lo by simp
    then have "(128::int) ^ length gs < 128 ^ 4" using assms(2) by simp
    then show ?thesis by (rule power_less_imp_less_exp[rotated]) simp
  qed
  have cap: "(0 + 1) * 128 ^ (length ?hs + 1) \<le> (2::int) ^ 31"
  proof -
    have "length ?hs + 1 \<le> 4" using short by simp
    then have "(128::int) ^ (length ?hs + 1) \<le> 128 ^ 4" by (intro power_increasing) simp_all
    then show ?thesis by simp
  qed
  let ?b = "DataBuffer_from (vlv_bytes n)"
  have rd: "readVariableLengthValues_loop 0 ?b =
      Inr (foldl (\<lambda>a h. a * 128 + h) 0 (?hs @ [g]), ?b\<lparr>offset := int (0 + length ?hs + 1)\<rparr>)"
  proof (rule rvlv_loop_read)
    show "\<not> writing ?b" by (simp add: DataBuffer_from_def)
    show "offset ?b = int 0" by (simp add: DataBuffer_from_def)
    show "drop 0 (data ?b) = map (\<lambda>h. word_of_int (h + 128)) ?hs @ [word_of_int g]"
      using bytes by (simp add: DataBuffer_from_def)
    show "\<forall>h\<in>set ?hs. 0 \<le> h \<and> h < 128" using rng(3) by simp
    show "0 \<le> g" "g < 128" using rng by simp_all
    show "(0::int) \<le> 0" by simp
    show "(0 + 1) * 128 ^ (length ?hs + 1) \<le> (2::int) ^ 31" by (rule cap)
  qed
  have "foldl (\<lambda>a h. a * 128 + h) 0 (?hs @ [g]) = foldr (\<lambda>g a. g + 128 * a) (g # gs) 0"
  proof -
    have "(\<lambda>a h. a * 128 + h) = (\<lambda>x y. y + 128 * (x::int))" by (intro ext) simp
    then show ?thesis using foldr_conv_foldl[of "\<lambda>g a. g + 128 * a" "g # gs" "0::int"] by simp
  qed
  then have c1: "readVariableLengthValues ?b = Inr (n, ?b\<lparr>offset := int (length (vlv_bytes n))\<rparr>)"
    using rd val len by (simp add: readVariableLengthValues_def)
  have c2: "n < 128 ^ length (vlv_bytes n)" using up len by simp
  have c3: "\<forall>k>0. n < 128 ^ k \<longrightarrow> length (vlv_bytes n) \<le> k"
  proof (intro allI impI)
    fix k :: nat assume k: "0 < k" "n < 128 ^ k"
    show "length (vlv_bytes n) \<le> k"
    proof (cases "gs = []")
      case True then show ?thesis using k len by simp
    next
      case False
      then have "(128::int) ^ length gs \<le> n" using lo by simp
      then have "(128::int) ^ length gs < 128 ^ k" using k(2) by linarith
      then have "length gs < k" by (rule power_less_imp_less_exp[rotated]) simp
      then show ?thesis using len by simp
    qed
  qed
  have c4: "n = 0 \<longrightarrow> vlv_bytes n = [0]"
  proof
    assume z: "n = 0"
    have "vlv_groups 0 = [0]" using vlv_groups_unfold[of 0] by simp
    then show "vlv_bytes n = [0]" using vlv_bytes_eq[of 0 0 "[]"] z by (simp add: ToUint8_def)
  qed
  have c5: "(\<forall>x\<in>set (butlast (vlv_bytes n)). x AND 0x80 = 0x80) \<and> last (vlv_bytes n) AND 0x80 = 0"
    using rng by (auto simp: bytes high_byte_and low_byte_and simp del: of_int_add)
  show ?thesis using c1 c2 c3 c4 c5 by blast
qed


theorem vlq_roundtrip_minimal_witness:
  "(0::int) \<le> 128 \<and> (128::int) < 2 ^ 28
   \<and> vlv_bytes 128 = [0x81, 0x00]
   \<and> readVariableLengthValues (DataBuffer_from (vlv_bytes 128)) =
         Inr (128, (DataBuffer_from (vlv_bytes 128))\<lparr>offset := 2\<rparr>)
   \<and> (128::int) < 128 ^ length (vlv_bytes 128)"
proof -
  have g: "vlv_groups 128 = [0, 1]"
    using vlv_groups_unfold[of 128] vlv_groups_unfold[of 1] by simp
  have b: "vlv_bytes 128 = [0x81, 0x00]"
    using vlv_bytes_eq[OF g] by (simp add: ToUint8_def js_or_def ToInt32_def)
  show ?thesis using vlq_roundtrip_minimal[of 128] b by simp
qed

section \<open>The note name round trip\<close>

declare nat_digits.simps [simp del]

lemma digits_value_snoc: "digits_value (xs @ [d]) = 10 * digits_value xs + (int d - 48)"
  by (simp add: digits_value_def)

lemma nat_digits_ok:
  "nat_digits n \<noteq> [] \<and> list_all is_digit (nat_digits n) \<and> digits_value (nat_digits n) = int n"
proof (induction n rule: nat_digits.induct)
  case (1 n)
  show ?case
  proof (cases "n < 10")
    case True
    then have "nat_digits n = [48 + n]" by (subst nat_digits.simps) simp
    then show ?thesis using True by (simp add: is_digit_def digits_value_def)
  next
    case False
    then have u: "nat_digits n = nat_digits (n div 10) @ [48 + n mod 10]"
      by (subst nat_digits.simps) simp
    have ih: "list_all is_digit (nat_digits (n div 10))"
       "digits_value (nat_digits (n div 10)) = int (n div 10)"
      using "1.IH"[OF False] by simp_all
    have "is_digit (48 + n mod 10)" by (simp add: is_digit_def)
    moreover have "10 * int (n div 10) + (int (48 + n mod 10) - 48) = int n"
      by (simp add: zdiv_int zmod_int)
    ultimately show ?thesis unfolding u using ih by (simp add: digits_value_snoc)
  qed
qed

lemma digit_not_special: "is_digit c \<Longrightarrow> \<not> is_white_space c \<and> c \<noteq> 45 \<and> c \<noteq> 43 \<and> c \<noteq> 35"
  by (auto simp: is_digit_def is_white_space_def)

lemma parseInt10_digits:
  assumes "ds \<noteq> []" "list_all is_digit ds"
  shows "parseInt10 ds = Some (digits_value ds)" "parseInt10 (45 # ds) = Some (- digits_value ds)"
proof -
  obtain c cs where ds: "ds = c # cs" using assms(1) by (cases ds) auto
  have c: "is_digit c" using assms(2) ds by simp
  have tw: "takeWhile is_digit ds = ds" using assms(2) by (simp add: list_all_iff)
  show "parseInt10 ds = Some (digits_value ds)"
    using digit_not_special[OF c] assms(1) tw[unfolded ds] by (simp add: parseInt10_def ds Let_def del: takeWhile_eq_all_conv)
  have "\<not> is_white_space 45" by (simp add: is_white_space_def)
  then show "parseInt10 (45 # ds) = Some (- digits_value ds)"
    using assms(1) by (simp add: parseInt10_def tw Let_def)
qed

lemma parseInt10_int_to_string: "parseInt10 (int_to_string k) = Some k"
  using nat_digits_ok[of "nat k"] nat_digits_ok[of "nat (- k)"]
  by (auto simp: int_to_string_def parseInt10_digits)

lemma match_note_name:
  assumes "65 \<le> c" "c \<le> 71" "name = [c] \<or> name = [c, 35]"
  shows "match_note (name @ int_to_string k) = Some (name, int_to_string k)"
proof -
  have cases: "(\<exists>ds. ds \<noteq> [] \<and> list_all is_digit ds \<and> (int_to_string k = ds \<or> int_to_string k = 45 # ds))"
    using nat_digits_ok[of "nat k"] nat_digits_ok[of "nat (- k)"]
    by (auto simp: int_to_string_def)
  then obtain ds where ds: "ds \<noteq> []" "list_all is_digit ds"
     "int_to_string k = ds \<or> int_to_string k = 45 # ds" by blast
  obtain d dr where d: "ds = d # dr" using ds(1) by (cases ds) auto
  have dd: "is_digit d" "list_all is_digit dr" using ds(2) d by simp_all
  have ns: "d \<noteq> 45" "d \<noteq> 35" using digit_not_special[OF dd(1)] by simp_all
  show ?thesis
    using assms ds(3) dd ns by (auto simp: match_note_def d)
qed

lemma noteToMidi_name:
  assumes "65 \<le> c" "c \<le> 71" "name = [c] \<or> name = [c, 35]" "map_of noteMap name = Some x"
  shows "noteToMidi (name @ int_to_string k) off noteMap =
          (if (k + off) * 12 + x < 0 \<or> (k + off) * 12 + x > 127 then Inl NoteOutOfRange
           else Inr (Some ((k + off) * 12 + x)))"
  using match_note_name[OF assms(1-3), of k] assms(4)
  by (simp add: noteToMidi_def parseInt10_int_to_string Let_def)

lemma default_names_facts:
  "\<forall>r\<in>set [0..<12]. \<exists>c. 65 \<le> c \<and> c \<le> 71
      \<and> (default_noteNames ! r = [c] \<or> default_noteNames ! r = [c, 35])
      \<and> map_of default_noteMap (default_noteNames ! r) = Some (int r)"
  by (simp add: upt_rec default_noteNames_def default_noteMap_def str_def)

lemma midiToNote_roundtrip:
  assumes "0 \<le> v" "v \<le> 127"
  shows "\<exists>s. midiToNote v 2 default_noteNames = Inr s \<and> noteToMidi s 2 default_noteMap = Inr (Some v)"
proof -
  let ?r = "nat (v mod 12)"
  have r: "?r \<in> set [0..<12]" using assms by simp
  have len: "length default_noteNames = 12" by (simp add: default_noteNames_def)
  obtain c where c: "65 \<le> c" "c \<le> 71"
     "default_noteNames ! ?r = [c] \<or> default_noteNames ! ?r = [c, 35]"
     "map_of default_noteMap (default_noteNames ! ?r) = Some (int ?r)"
    using default_names_facts r by blast
  let ?s = "default_noteNames ! ?r @ int_to_string (v div 12 - 2)"
  have lt: "?r < 12" using r by simp
  have m: "midiToNote v 2 default_noteNames = Inr ?s"
    using assms len lt by (simp add: midiToNote_def Let_def)
  have k: "(v div 12 - 2 + 2) * 12 + int ?r = v" using assms by simp
  have "noteToMidi ?s 2 default_noteMap = Inr (Some v)"
    using noteToMidi_name[OF c(1,2,3,4), of "v div 12 - 2" 2] assms k by simp
  then show ?thesis using m by blast
qed

text \<open>
  Claim C9. For every integer \<open>v\<close> in \<open>[0, 127]\<close>, \<open>noteToMidi(midiToNote(v)) = v\<close> at the
  default octave offset 2 and the default tables, and \<open>noteToMidi("C4") = 72\<close>. A MIDI
  value below 0 or above 127 makes \<open>midiToNote\<close> raise; a note string whose computed
  MIDI number is below 0 or above 127 makes \<open>noteToMidi\<close> raise.
\<close>

theorem note_name_roundtrip:
  "(0 \<le> v \<and> v \<le> 127 \<longrightarrow>
      (\<exists>s. midiToNote v 2 default_noteNames = Inr s \<and> noteToMidi s 2 default_noteMap = Inr (Some v)))
   \<and> noteToMidi (str ''C4'') 2 default_noteMap = Inr (Some 72)
   \<and> (w < 0 \<or> w > 127 \<longrightarrow> midiToNote w off names = Inl InvalidMidiValue)
   \<and> (match_note s = Some (nm, oct) \<and> parseInt10 oct = Some k \<and> map_of noteMap nm = Some x
        \<and> ((k + off') * 12 + x < 0 \<or> (k + off') * 12 + x > 127)
      \<longrightarrow> noteToMidi s off' noteMap = Inl NoteOutOfRange)"
proof -
  have c4: "noteToMidi (str ''C4'') 2 default_noteMap = Inr (Some 72)"
    by (simp add: noteToMidi_def match_note_def parseInt10_def is_digit_def is_white_space_def
        digits_value_def default_noteMap_def str_def)
  have hi: "w < 0 \<or> w > 127 \<longrightarrow> midiToNote w off names = Inl InvalidMidiValue"
    by (simp add: midiToNote_def)
  have oor: "match_note s = Some (nm, oct) \<and> parseInt10 oct = Some k \<and> map_of noteMap nm = Some x
        \<and> ((k + off') * 12 + x < 0 \<or> (k + off') * 12 + x > 127)
      \<longrightarrow> noteToMidi s off' noteMap = Inl NoteOutOfRange"
    by (auto simp: noteToMidi_def Let_def)
  show ?thesis using midiToNote_roundtrip[of v] c4 hi oor by blast
qed


theorem note_name_roundtrip_witness:
  "midiToNote 60 2 default_noteNames = Inr (str ''C3'')
   \<and> noteToMidi (str ''C3'') 2 default_noteMap = Inr (Some 60)
   \<and> midiToNote 128 2 default_noteNames = Inl InvalidMidiValue
   \<and> match_note (str ''G#8'') = Some (str ''G#'', str ''8'')
   \<and> noteToMidi (str ''G#8'') 2 default_noteMap = Inl NoteOutOfRange"
proof -
  have m: "midiToNote 60 2 default_noteNames = Inr (str ''C3'')"
    by (simp add: midiToNote_def default_noteNames_def int_to_string_def nat_digits.simps
        str_def Let_def)
  have g: "match_note (str ''G#8'') = Some (str ''G#'', str ''8'')"
    by (simp add: match_note_def is_digit_def str_def)
  have p: "parseInt10 (str ''8'') = Some 8"
    by (simp add: parseInt10_def is_digit_def is_white_space_def digits_value_def str_def)
  have x: "map_of default_noteMap (str ''G#'') = Some 8"
    by (simp add: default_noteMap_def str_def)
  show ?thesis
    using note_name_roundtrip[where v = 60 and w = 128 and off = 2 and names = default_noteNames
        and s = "str ''G#8''" and nm = "str ''G#''" and oct = "str ''8''" and k = 8
        and noteMap = default_noteMap and x = 8 and off' = 2] m g p x
    by simp
qed

section \<open>Parsing concrete files\<close>

lemmas parse_eval =
  parse_def AudioMIDI_from_def read_def read_loop.simps readUInt8_def available_def
  remainingBytes_def data_at_def decodeHeader_def read_then_def readString_def peek_chars.simps
  peekUInt8_def availableAt_def advance_def readUInt32_def readUInt16_def DataBuffer_from_def
  start_parse_def finish_parse_def parse_tracks.simps parse_events.simps parse_event_def read_status_def
  readVariableLengthValues_def readVariableLengthValues_loop.simps js_shl_def js_and_def
  js_sar_def ToInt32_def rewind_def parse_channel_def note_on_def note_off_def empty_event_def
  str_def parse_meta_def byte_event_def Let_def

text \<open>
  Claim C4. The single-track input whose MTrk body is \<open>00 90 3C 40 00 3E 40 00 40 40\<close>
  decodes, by the running status rule, to exactly three Note On events on channel 0 with
  the notes 60, 62 and 64 and the velocity \<open>0x40\<close> each. The format and the time
  division of the header are arbitrary.
\<close>

theorem running_status_three_note_ons:
  "map_option (map_sum id (\<lambda>m. map events (chunks m)))
     (parse (AudioMIDI_from
        [0x4D, 0x54, 0x68, 0x64, 0, 0, 0, 6, f1, f2, 0, 1, d1, d2,
         0x4D, 0x54, 0x72, 0x6B, 0, 0, 0, 10,
         0x00, 0x90, 0x3C, 0x40, 0x00, 0x3E, 0x40, 0x00, 0x40, 0x40]))
   = Some (Inr [[note_on_event 0 0 60 0x40, note_on_event 0 0 62 0x40,
                 note_on_event 0 0 64 0x40]])"
  by (simp add: parse_eval note_on_event_def)

text \<open>
  Claim C1 fails on the code. The loop over the events of a track runs while bytes remain
  in the whole buffer and does not stop at End of Track, so the bytes of the second
  chunk are decoded as events of the first: \<open>M\<close> is a delta time of 77, \<open>T\<close> is below
  \<open>0x80\<close> and reuses the status \<open>0xFF\<close> with the meta type \<open>T = 0x54\<close>, and so on.
  \<open>parse\<close> returns one track of three events for the file of two tracks.
\<close>

theorem two_track_file_parses_as_one_track:
  "map_option (map_sum id (\<lambda>m. map events (chunks m))) (parse (AudioMIDI_from two_track_file))
   = Some (Inr [[end_of_track_event 0,
                 \<lparr>deltaTime = Some 77, type = Some 0xFF, label = Some (str ''SMPTE Offset''),
                  edata = JObj [(''hourByte'', JNum 107), (''hour'', JNum 11),
                                (''minute'', JNum 0), (''second'', JNum 0), (''frame'', JNum 0),
                                (''subFrame'', JNum 4), (''frameRate'', JNum 30)],
                  metaType = Some 0x54, metaEventLength = Some 114, channel = None\<rparr>,
                 end_of_track_event 0]])"
  by (simp add: parse_eval two_track_file_def end_of_track_event_def frameRates_def)

section \<open>The declared length of the header\<close>

text \<open>
  Claim C7 fails on the code: \<open>parse\<close> reads 14 bytes and goes on to the tracks;
  \<open>decodeHeader\<close> returns the declared length and nothing uses it. On the file with
  the declared length 8 the two excess bytes and \<open>MT\<close> are read as the chunk type, which
  is not \<open>MTrk\<close>, and \<open>parse\<close> returns without the track.
\<close>

theorem oversized_header_counterexample:
  "map_option (map_sum id (\<lambda>m. (trackCount m, chunks m)))
     (parse (AudioMIDI_from oversized_header_file)) = Some (Inr (1, []))
   \<and> map_option (map_sum id chunks) (parse (AudioMIDI_from oversized_header_file))
       \<noteq> Some (Inr [\<lparr>ctype = str ''MTrk'', chunkLength = 4, events = [end_of_track_event 0]\<rparr>])"
  by (simp add: parse_eval oversized_header_file_def)

lemma unat_byte_eq:
  "unat (x::byte) = 77 \<longleftrightarrow> x = 77" "unat (x::byte) = 84 \<longleftrightarrow> x = 84"
  "unat (x::byte) = 114 \<longleftrightarrow> x = 114" "unat (x::byte) = 107 \<longleftrightarrow> x = 107"
  by (simp_all add: word_unat_eq_iff)

text \<open>
  Claim C7 as amended. Whatever the 14 bytes of the header are, and so whatever length
  they declare, \<open>parse\<close> takes the 4 bytes at offset 14 as the type of the first chunk
  and skips nothing: when the header counts at least one track, at least 8 bytes follow
  it and the first 4 of them are not \<open>MTrk\<close>, \<open>parse\<close> returns without an error, with
  no track, the cursor at offset 22.
\<close>

theorem parse_reads_track_header_at_offset_14:
  assumes "0 < uint n0 * 256 + uint n1"
    and "\<not> (r0 = 0x4D \<and> r1 = 0x54 \<and> r2 = 0x72 \<and> r3 = 0x6B)"
  shows "map_option (map_sum id (\<lambda>m. (trackCount m, chunks m, offset m)))
           (parse (AudioMIDI_from
              ([t0, t1, t2, t3, l0, l1, l2, l3, f0, f1, n0, n1, d0, d1]
               @ [r0, r1, r2, r3, r4, r5, r6, r7] @ rest)))
         = Some (Inr (uint n0 * 256 + uint n1, [], 22))"
  using assms by (simp add: parse_eval unat_byte_eq)

theorem parse_reads_track_header_at_offset_14_witness:
  "(0::int) < uint (0::byte) * 256 + uint (1::byte)
   \<and> map_option (map_sum id (\<lambda>m. (trackCount m, chunks m, offset m)))
         (parse (AudioMIDI_from oversized_header_file)) = Some (Inr (1, [], 22))"
  using parse_reads_track_header_at_offset_14
          [of 0 1 0 0 "0x4D" "0x54" "0x4D" "0x54" "0x68" "0x64" 0 0 0 8 0 0 "0x01" "0xE0"
              "0x72" "0x6B" 0 0 "[0, 4, 0x00, 0xFF, 0x2F, 0x00]"]
  by (simp add: oversized_header_file_def)

section \<open>The note balance of the validator\<close>















definition issues_ok :: "nat \<Rightarrow> validate_state \<Rightarrow> bool" where
  "issues_ok ti st \<longleftrightarrow> (\<forall>i\<in>set (issues st). issue_track i = Some ti \<and> unmatched_count i = 0)"


lemma issues_ok_same: "issues st' = issues st \<Longrightarrow> issues_ok ti st \<Longrightarrow> issues_ok ti st'"
  by (simp add: issues_ok_def)

















section \<open>Used notes of a parsed file\<close>

lemma type_never_0_90: "\<not> type_is_0_90 ev"
proof (cases "type ev")
  case None
  then show ?thesis by (simp add: type_is_0_90_def)
next
  case (Some t)
  have "(of_int t :: rat) \<noteq> 9 / 10"
  proof
    assume "(of_int t :: rat) = 9 / 10"
    then have "(of_int (10 * t) :: rat) = of_int 9" by simp
    then have "10 * t = 9" by (simp only: of_int_eq_iff)
    then show False by presburger
  qed
  then show ?thesis using Some by (simp add: type_is_0_90_def)
qed

lemma getUsedNotes_empty: "getUsedNotes m = Inr []"
proof -
  have "filter type_is_0_90 es = []" for es
    by (induction es) (simp_all add: type_never_0_90)
  then have "concat (map (\<lambda>trk. filter type_is_0_90 (events trk)) (chunks m)) = []"
    by simp
  then show ?thesis
    by (simp only: getUsedNotes_def collect_note_numbers_def foldl_Nil sort_key_simps
        used_notes_of.simps)
qed

text \<open>
  Claim C2 is right and the code is wrong. No status is the number \<open>0.90\<close>, so the
  filter of \<open>getUsedNotes\<close> keeps no event and the result is empty for every object. The
  parsed running status file holds three Note On events with the velocity 64, and
  \<open>getUsedNotes\<close> returns the empty array for it.
\<close>

theorem getUsedNotes_of_parsed_note_ons_is_empty:
  "map_option (map_sum id (\<lambda>m. (map (map (\<lambda>ev. (type ev, edata ev)) \<circ> events) (chunks m),
                                  getUsedNotes m)))
     (parse (AudioMIDI_from running_status_file))
   = Some (Inr ([[(Some 0x90, JObj [(''note'', JNum 60), (''velocity'', JNum 64)]),
                  (Some 0x90, JObj [(''note'', JNum 62), (''velocity'', JNum 64)]),
                  (Some 0x90, JObj [(''note'', JNum 64), (''velocity'', JNum 64)])]],
                Inr []))"
  by (simp add: parse_eval running_status_file_def getUsedNotes_empty)

section \<open>Writing a Control Change\<close>

lemmas write_eval =
  writeEvent_def write_fields_def writeEventData_def writeUInt8_def array_set_def
  writeVariableLengthValue_def vlv_groups.simps js_and_def js_or_def js_sar_def ToInt32_def
  DataBuffer_new_def falsy_def get_prop_def has_prop_def is_object_def commit_def ToUint8_def
  Let_def

text \<open>
  Claim C6 is right and the code is wrong. The check of a Control Change is
  \<open>!data.controllerNumber || !data.value\<close>, which takes the value 0 for a missing one:
  \<open>writeEvent\<close> raises for controller 7 with the value 0. It writes the two data bytes
  for the value 1, and the check of the note events, \<open>=== undefined\<close>, lets a Note On
  with the velocity 0 through.
\<close>

theorem control_change_value_zero_raises:
  "writeEvent control_change_zero DataBuffer_new = Inl InvalidController
   \<and> map_sum id (\<lambda>b. data (commit b))
        (writeEvent (control_change_zero\<lparr>edata :=
                       JObj [(''controllerNumber'', JNum 7), (''value'', JNum 1)]\<rparr>)
           DataBuffer_new) = Inr [0x00, 0xB0, 0x07, 0x01]
   \<and> map_sum id (\<lambda>b. data (commit b))
        (writeEvent (note_on_event 0 0 60 0) DataBuffer_new) = Inr [0x00, 0x90, 0x3C, 0x00]"
  by (simp add: control_change_zero_def note_on_event_def write_eval)

theorem control_change_value_zero_raises_witness:
  "isl (writeEvent control_change_zero DataBuffer_new)
   \<and> \<not> isl (writeEvent (control_change_zero\<lparr>edata :=
                       JObj [(''controllerNumber'', JNum 7), (''value'', JNum 1)]\<rparr>)
              DataBuffer_new)
   \<and> \<not> isl (writeEvent (note_on_event 0 0 60 0) DataBuffer_new)"
proof -
  note t = control_change_value_zero_raises
  have "isl (writeEvent control_change_zero DataBuffer_new)"
    using t by simp
  moreover have "\<not> isl (writeEvent (control_change_zero\<lparr>edata :=
                       JObj [(''controllerNumber'', JNum 7), (''value'', JNum 1)]\<rparr>)
              DataBuffer_new)"
    using t
    by (cases "writeEvent (control_change_zero\<lparr>edata :=
                       JObj [(''controllerNumber'', JNum 7), (''value'', JNum 1)]\<rparr>)
              DataBuffer_new") simp_all
  moreover have "\<not> isl (writeEvent (note_on_event 0 0 60 0) DataBuffer_new)"
    using t by (cases "writeEvent (note_on_event 0 0 60 0) DataBuffer_new") simp_all
  ultimately show ?thesis by simp
qed

section \<open>What \<open>saveToDataBuffer\<close> writes\<close>

text \<open>
  A buffer is at its end when it is being written and its cursor stands behind the last
  element; a writer that starts there appends and stops there.
\<close>

definition at_end :: "'a DataBuffer_scheme \<Rightarrow> bool" where
  "at_end b \<longleftrightarrow> writing b \<and> offset b = int (length (buffer b))"

definition grows :: "'a DataBuffer_scheme \<Rightarrow> 'a DataBuffer_scheme \<Rightarrow> bool" where
  "grows b b' \<longleftrightarrow> at_end b' \<and> (\<exists>X. buffer b' = buffer b @ X)"

lemma grows_refl: "at_end b \<Longrightarrow> grows b b"
  by (simp add: grows_def)

lemma grows_trans: "grows b b' \<Longrightarrow> grows b' b'' \<Longrightarrow> grows b b''"
  by (auto simp: grows_def)

lemma write_at_end: "write_at buf (int (length buf)) xs = buf @ xs"
proof (induction xs arbitrary: buf)
  case Nil
  then show ?case by simp
next
  case (Cons x xs)
  have "array_set buf (int (length buf)) x = buf @ [x]" by (simp add: array_set_def)
  then show ?case using Cons.IH[of "buf @ [x]"] by (simp add: add.commute)
qed

lemma write_at_overwrite:
  "length old = length new \<Longrightarrow>
     write_at (pre @ old @ post) (int (length pre)) new = pre @ new @ post"
proof (induction new arbitrary: pre old)
  case Nil
  then show ?case by simp
next
  case (Cons x xs)
  then obtain y os where old: "old = y # os" by (cases old) auto
  have "array_set (pre @ old @ post) (int (length pre)) x = (pre @ [x]) @ os @ post"
    by (simp add: array_set_def old)
  moreover have "length os = length xs" using Cons.prems old by simp
  ultimately show ?case using Cons.IH[of os "pre @ [x]"] by (simp add: add.commute)
qed

lemma writeUInt8_grows: "at_end b \<Longrightarrow> grows b (writeUInt8 v b)"
  by (simp add: at_end_def grows_def writeUInt8_def array_set_def)

lemma writeBytes_end:
  "at_end b \<Longrightarrow> buffer (writeBytes xs b) = buffer b @ xs \<and> at_end (writeBytes xs b)"
  by (simp add: at_end_def writeBytes_def write_at_end)

lemma writeBytes_grows: "at_end b \<Longrightarrow> grows b (writeBytes xs b)"
  using writeBytes_end[of b xs] by (simp add: grows_def)

lemma fold_writeUInt8_grows: "at_end b \<Longrightarrow> grows b (fold writeUInt8 xs b)"
proof (induction xs arbitrary: b)
  case Nil
  then show ?case by (simp add: grows_refl)
next
  case (Cons x xs)
  have g: "grows b (writeUInt8 x b)" using Cons.prems by (rule writeUInt8_grows)
  then have "at_end (writeUInt8 x b)" by (simp add: grows_def)
  then have "grows (writeUInt8 x b) (fold writeUInt8 xs (writeUInt8 x b))" by (rule Cons.IH)
  then show ?case using g by (auto intro: grows_trans)
qed

lemma writeVariableLengthValue_grows:
  assumes "at_end b" shows "grows b (writeVariableLengthValue v b)"
proof -
  have f: "at_end b \<Longrightarrow> grows b (fold (\<lambda>h. writeUInt8 (g h)) xs b)" for g :: "int \<Rightarrow> jsval" and xs b
  proof (induction xs arbitrary: b)
    case Nil
    then show ?case by (simp add: grows_refl)
  next
    case (Cons x xs)
    have g: "grows b (writeUInt8 (g x) b)" using Cons.prems by (rule writeUInt8_grows)
    then have "at_end (writeUInt8 (g x) b)" by (simp add: grows_def)
    then have "grows (writeUInt8 (g x) b) (fold (\<lambda>h. writeUInt8 (g h)) xs (writeUInt8 (g x) b))"
      by (rule Cons.IH)
    then show ?case using g by (auto intro: grows_trans)
  qed
  show ?thesis
  proof (cases "vlv_groups v")
    case Nil
    then show ?thesis using assms by (simp add: writeVariableLengthValue_def writeUInt8_grows)
  next
    case (Cons g gs)
    let ?b = "fold (\<lambda>h. writeUInt8 (JNum (js_or h 0x80))) (rev gs) b"
    have 1: "grows b ?b" using assms by (rule f)
    then have "at_end ?b" by (simp add: grows_def)
    then have "grows ?b (writeUInt8 (JNum g) ?b)" by (rule writeUInt8_grows)
    then show ?thesis using 1 Cons by (auto simp: writeVariableLengthValue_def intro: grows_trans)
  qed
qed

lemma writeEventData_grows:
  "at_end b \<Longrightarrow> writeEventData v b = Inr b' \<Longrightarrow> grows b b'"
  by (cases v) (auto simp: writeEventData_def writeBytes_grows fold_writeUInt8_grows split: if_splits)

lemma write_fields_grows:
  "at_end b \<Longrightarrow> write_fields err d names b = Inr b' \<Longrightarrow> grows b b'"
  by (auto simp: write_fields_def split: if_splits dest: writeEventData_grows)

lemma write_meta_grows:
  "at_end b \<Longrightarrow> write_meta mty d b = Inr b' \<Longrightarrow> grows b b'"
  by (auto simp: write_meta_def grows_refl writeUInt8_grows split: option.splits if_splits
      dest: writeEventData_grows write_fields_grows)


lemma grows_at_end: "grows b b' \<Longrightarrow> at_end b'"
  by (simp add: grows_def)

lemma grows_writeUInt8: "grows b b' \<Longrightarrow> grows b (writeUInt8 x b')"
  using writeUInt8_grows[of b' x] by (auto simp: grows_def)

lemma grows_writeVLV: "grows b b' \<Longrightarrow> grows b (writeVariableLengthValue x b')"
  using writeVariableLengthValue_grows[of b' x] by (auto simp: grows_def)

lemma grows_writeEventData: "grows b b' \<Longrightarrow> writeEventData v b' = Inr b'' \<Longrightarrow> grows b b''"
  using writeEventData_grows[of b' v b''] by (auto simp: grows_def)

lemma grows_write_fields:
  "grows b b' \<Longrightarrow> write_fields err d names b' = Inr b'' \<Longrightarrow> grows b b''"
  using write_fields_grows[of b' err d names b''] by (auto simp: grows_def)

lemma grows_write_meta:
  "grows b b' \<Longrightarrow> write_meta mty d b' = Inr b'' \<Longrightarrow> grows b b''"
  using write_meta_grows[of b' mty d b''] by (auto simp: grows_def)

lemma writeEvent_grows:
  assumes "at_end b" "writeEvent ev b = Inr b'"
  shows "grows b b'"
proof -
  have s: "grows b (writeUInt8 x (writeVariableLengthValue dt b))" for dt x
    by (intro grows_writeUInt8 grows_writeVLV grows_refl assms(1))
  show ?thesis
    using assms(2) unfolding writeEvent_def Let_def
    by (auto split: option.splits if_splits sum.splits
        intro: s grows_writeUInt8 grows_writeVLV
        elim: grows_writeEventData[OF s] grows_write_fields[OF s]
              grows_write_meta[OF grows_writeVLV[OF grows_writeUInt8[OF s]]]
              grows_writeEventData[OF grows_writeUInt8[OF s], THEN grows_writeUInt8])
qed

lemma write_events_grows:
  "at_end b \<Longrightarrow> write_events evs b = Inr b' \<Longrightarrow> grows b b'"
proof (induction evs arbitrary: b)
  case Nil
  then show ?case by (simp add: grows_refl)
next
  case (Cons ev evs)
  from Cons.prems(2) obtain b1 where 1: "writeEvent ev b = Inr b1" and 2: "write_events evs b1 = Inr b'"
    by (auto split: sum.splits)
  have g: "grows b b1" using Cons.prems(1) 1 by (rule writeEvent_grows)
  then have "grows b1 b'" using Cons.IH[of b1] 2 by (simp add: grows_def)
  then show ?case using g by (rule grows_trans[rotated])
qed


lemma writeString_end:
  "at_end b \<Longrightarrow>
     buffer (writeString s b) = buffer b @ map (\<lambda>c. JNum (js_and (int c) 0xFF)) s
     \<and> at_end (writeString s b)"
  by (simp add: writeString_def writeBytes_end)

lemma writeUInt16_end:
  "at_end b \<Longrightarrow>
     buffer (writeUInt16 v b) = buffer b @ [JNum (js_sar (js_and v 0xFF00) 8), JNum (js_and v 0xFF)]
     \<and> at_end (writeUInt16 v b)"
  by (simp add: at_end_def writeUInt16_def write_at_end del: write_at.simps)

lemma writeUInt32_end:
  "at_end b \<Longrightarrow>
     buffer (writeUInt32 v b) =
       buffer b @ [JNum (js_sar (js_and v 0xFF000000) 24), JNum (js_sar (js_and v 0x00FF0000) 16),
                   JNum (js_sar (js_and v 0x0000FF00) 8), JNum (js_and v 0x000000FF)]
     \<and> at_end (writeUInt32 v b)"
  by (simp add: at_end_def writeUInt32_def write_at_end del: write_at.simps)

lemma writeChunk_other: "ctype c \<noteq> str ''MTrk'' \<Longrightarrow> writeChunk c b = Inr (b, c)"
  by (simp add: writeChunk_def)

lemma MTrk_tag:
  "map (\<lambda>c. JNum (js_and (int c) 0xFF)) (str ''MTrk'') = [JNum 0x4D, JNum 0x54, JNum 0x72, JNum 0x6B]"
  by (simp add: str_def js_and_def ToInt32_def)

lemma writeChunk_MTrk:
  assumes e: "at_end b" and t: "ctype c = str ''MTrk''" and w: "writeChunk c b = Inr (b', c')"
  shows "at_end b' \<and> (\<exists>X. buffer b' = buffer b @ [JNum 0x4D, JNum 0x54, JNum 0x72, JNum 0x6B] @ X)"
proof -
  define T where "T = [JNum 0x4D, JNum 0x54, JNum 0x72, JNum 0x6B]"
  define b1 where "b1 = writeString (str ''MTrk'') b"
  define b2 where "b2 = writeUInt32 0 b1"
  have b1: "buffer b1 = buffer b @ T" "at_end b1"
    using writeString_end[OF e, of "str ''MTrk''"] by (simp_all add: b1_def MTrk_tag T_def)
  obtain Z where b2: "buffer b2 = buffer b1 @ Z" "length Z = 4" "at_end b2"
    using writeUInt32_end[OF b1(2), of 0] by (simp add: b2_def)
  from w t obtain b3 where w3: "write_events (events c) b2 = Inr b3"
    by (auto simp: writeChunk_def Let_def b1_def b2_def split: sum.splits)
  have "grows b2 b3" using b2(3) w3 by (rule write_events_grows)
  then obtain X where b3: "buffer b3 = buffer b2 @ X" "at_end b3" by (auto simp: grows_def)
  have o1: "offset b1 = int (length (buffer b @ T))" using b1 by (simp add: at_end_def)
  have o3: "offset b3 = int (length (buffer b @ T)) + 4 + int (length X)"
    using b3 b2 b1 by (simp add: at_end_def)
  have o2: "offset b2 = int (length (buffer b @ T)) + 4"
    using b2 b1 by (simp add: at_end_def)
  define b4 where "b4 = b3\<lparr>offset := offset b1\<rparr>"
  have s4: "seek (offset b1) b3 = Inr b4"
    using o1 o3 by (simp add: seek_def rewind_def b4_def)
  define len where "len = offset b3 - offset b2"
  define L where "L = [JNum (js_sar (js_and len 0xFF000000) 24), JNum (js_sar (js_and len 0x00FF0000) 16),
                   JNum (js_sar (js_and len 0x0000FF00) 8), JNum (js_and len 0x000000FF)]"
  define b5 where "b5 = writeUInt32 len b4"
  have "buffer b4 = (buffer b @ T) @ Z @ X" using b3 b2 b1 by (simp add: b4_def)
  then have "write_at (buffer b4) (int (length (buffer b @ T))) L = (buffer b @ T) @ L @ X"
    using write_at_overwrite[of Z L "buffer b @ T" X] b2(2) by (simp add: L_def)
  then have b5: "buffer b5 = buffer b @ T @ L @ X" "offset b5 = offset b1 + 4" "writing b5"
    using o1 b3(2) by (simp_all add: b5_def writeUInt32_def b4_def L_def at_end_def)
  define b6 where "b6 = b5\<lparr>offset := offset b3\<rparr>"
  have b6: "buffer b6 = buffer b5" "offset b6 = offset b3" "writing b6"
    using b5 by (simp_all add: b6_def)
  have s6: "seek (offset b3) b5 = Inr b6"
  proof (cases "offset b3 > offset b5")
    case True
    then show ?thesis using b5(3) by (simp add: seek_def advance_def available_def b6_def)
  next
    case False
    then have "offset b3 = offset b5" using b5(2) o1 o3 by simp
    then show ?thesis by (simp add: seek_def b6_def)
  qed
  have "writeChunk c b = Inr (b6, c\<lparr>chunkLength := len\<rparr>)"
    using t w3 s4 s6
    by (simp add: writeChunk_def Let_def b1_def[symmetric] b2_def[symmetric] len_def b5_def)
  then have "b' = b6" using w by simp
  moreover have "length L = 4" by (simp add: L_def)
  ultimately show ?thesis
    using b6 b5 o3 by (auto simp: at_end_def T_def)
qed


lemma ToInt32_signed: "ToInt32 x = signed_take_bit 31 x"
  by (simp add: ToInt32_def signed_take_bit_eq_take_bit_shift take_bit_eq_mod)

lemma lo_byte: "(word_of_int (js_and v 0xFF) :: byte) = word_of_int v"
proof -
  have "(255::int) = mask 8" by (simp add: mask_eq_exp_minus_1)
  then have "js_and v 0xFF = signed_take_bit 31 v AND mask 8"
    by (simp add: js_and_def ToInt32_signed signed_take_bit_eq_if_positive)
  also have "take_bit 8 \<dots> = take_bit 8 v"
    by (rule bit_eqI) (auto simp: bit_simps)
  finally show ?thesis by (simp add: word_of_int_eq_iff)
qed

lemma hi_byte: "(word_of_int (js_sar (js_and v 0xFF00) 8) :: byte) = word_of_int (v div 256)"
proof -
  have m: "(0xFF00::int) = push_bit 8 (mask 8)" by (simp add: mask_eq_exp_minus_1 push_bit_eq_mult)
  have a: "js_and v 0xFF00 = signed_take_bit 31 v AND push_bit 8 (mask 8)"
    unfolding js_and_def ToInt32_signed m[symmetric] by simp
  have r: "signed_take_bit 31 (signed_take_bit 31 v AND push_bit 8 (mask 8)) =
        signed_take_bit 31 v AND push_bit 8 (mask (8::nat))"
    by (rule bit_eqI) (auto simp: bit_simps)
  have "take_bit 8 (drop_bit 8 (signed_take_bit 31 v AND push_bit 8 (mask 8))) = take_bit 8 (drop_bit 8 v)"
    by (rule bit_eqI) (auto simp: bit_simps)
  then show ?thesis
    by (simp add: word_of_int_eq_iff js_sar_def a ToInt32_signed r drop_bit_eq_div)
qed

lemma be16_written:
  "map ToUint8 [JNum (js_sar (js_and v 0xFF00) 8), JNum (js_and v 0xFF)] = be16 v"
  by (simp add: ToUint8_def be16_def hi_byte lo_byte)

lemma header_written:
  fixes f n t :: int
  defines "b \<equiv> writeUInt16 t (writeUInt16 n (writeUInt16 f
                 (writeUInt32 6 (writeString (str ''MThd'') DataBuffer_new))))"
  shows "at_end b" and "map ToUint8 (buffer b) = MThd_header f n (Some t)"
proof -
  have e0: "at_end DataBuffer_new" by (simp add: at_end_def DataBuffer_new_def)
  note s = writeString_end[OF e0, of "str ''MThd''"]
  note l = writeUInt32_end[OF s[THEN conjunct2], of 6]
  note f = writeUInt16_end[OF l[THEN conjunct2], of f]
  note n = writeUInt16_end[OF f[THEN conjunct2], of n]
  note t = writeUInt16_end[OF n[THEN conjunct2], of t]
  show "at_end b" using t by (simp add: b_def)
  have "buffer b = (map (\<lambda>c. JNum (js_and (int c) 0xFF)) (str ''MThd'')
           @ [JNum (js_sar (js_and 6 0xFF000000) 24), JNum (js_sar (js_and 6 0x00FF0000) 16),
              JNum (js_sar (js_and 6 0x0000FF00) 8), JNum (js_and 6 0x000000FF)])
           @ [JNum (js_sar (js_and f 0xFF00) 8), JNum (js_and f 0xFF)]
           @ [JNum (js_sar (js_and n 0xFF00) 8), JNum (js_and n 0xFF)]
           @ [JNum (js_sar (js_and t 0xFF00) 8), JNum (js_and t 0xFF)]"
    unfolding b_def using s l f n t by (simp add: DataBuffer_new_def)
  then have "map ToUint8 (buffer b) =
      map ToUint8 (map (\<lambda>c. JNum (js_and (int c) 0xFF)) (str ''MThd'')
           @ [JNum (js_sar (js_and 6 0xFF000000) 24), JNum (js_sar (js_and 6 0x00FF0000) 16),
              JNum (js_sar (js_and 6 0x0000FF00) 8), JNum (js_and 6 0x000000FF)])
       @ be16 f @ be16 n @ be16 t"
    by (simp only: map_append be16_written)
  moreover have "map ToUint8 (map (\<lambda>c. JNum (js_and (int c) 0xFF)) (str ''MThd'')
           @ [JNum (js_sar (js_and 6 0xFF000000) 24), JNum (js_sar (js_and 6 0x00FF0000) 16),
              JNum (js_sar (js_and 6 0x0000FF00) 8), JNum (js_and 6 0x000000FF)])
        = [0x4D, 0x54, 0x68, 0x64, 0, 0, 0, 6]"
    by (simp add: str_def js_and_def js_sar_def ToInt32_def ToUint8_def)
  ultimately show "map ToUint8 (buffer b) = MThd_header f n (Some t)"
    by (simp add: MThd_header_def)
qed

lemma write_chunks_bodies:
  "at_end b \<Longrightarrow> write_chunks cs b = Inr (b', cs') \<Longrightarrow>
     at_end b' \<and>
     (\<exists>bodies. length bodies = length (filter is_MTrk cs) \<and>
        buffer b' = buffer b
           @ concat (map (\<lambda>X. [JNum 0x4D, JNum 0x54, JNum 0x72, JNum 0x6B] @ X) bodies))"
proof (induction cs arbitrary: b cs')
  case Nil
  then show ?case by simp
next
  case (Cons c cs)
  from Cons.prems(2) obtain b1 c1 cs1 where
    1: "writeChunk c b = Inr (b1, c1)" and 2: "write_chunks cs b1 = Inr (b', cs1)"
    by (auto split: sum.splits prod.splits)
  show ?case
  proof (cases "is_MTrk c")
    case True
    from writeChunk_MTrk[OF Cons.prems(1) True[unfolded is_MTrk_def] 1] obtain X where
      e1: "at_end b1" and X: "buffer b1 = buffer b @ [JNum 0x4D, JNum 0x54, JNum 0x72, JNum 0x6B] @ X"
      by blast
    from Cons.IH[OF e1 2] obtain bodies where
      "at_end b'" "length bodies = length (filter is_MTrk cs)"
      "buffer b' = buffer b1
           @ concat (map (\<lambda>X. [JNum 0x4D, JNum 0x54, JNum 0x72, JNum 0x6B] @ X) bodies)"
      by blast
    then have "at_end b' \<and> length (X # bodies) = length (filter is_MTrk (c # cs)) \<and>
       buffer b' = buffer b
           @ concat (map (\<lambda>X. [JNum 0x4D, JNum 0x54, JNum 0x72, JNum 0x6B] @ X) (X # bodies))"
      using True X by simp
    then show ?thesis by blast
  next
    case False
    then have "b1 = b" using 1 by (simp add: writeChunk_other is_MTrk_def)
    then show ?thesis using Cons.IH[OF Cons.prems(1), of cs1] 2 False by simp
  qed
qed

lemma write_chunks_Cons_fst:
  "map_sum id fst (write_chunks (c # cs) b) =
     (case writeChunk c b of
        Inl e \<Rightarrow> Inl e
      | Inr (b', c') \<Rightarrow> map_sum id fst (write_chunks cs b'))"
  by (simp split: sum.splits prod.splits)

lemma write_chunks_filter:
  "map_sum id fst (write_chunks (filter is_MTrk cs) b) = map_sum id fst (write_chunks cs b)"
proof (induction cs arbitrary: b)
  case Nil
  then show ?case by simp
next
  case (Cons c cs)
  show ?case
  proof (cases "is_MTrk c")
    case True
    then show ?thesis by (simp only: filter.simps if_True write_chunks_Cons_fst Cons.IH)
  next
    case False
    then have "writeChunk c b = Inr (b, c)" by (simp add: writeChunk_other is_MTrk_def)
    then have e: "map_sum id fst (write_chunks (c # cs) b) = map_sum id fst (write_chunks cs b)"
      by (simp only: write_chunks_Cons_fst sum.case prod.case)
    have "map_sum id fst (write_chunks (filter is_MTrk (c # cs)) b)
          = map_sum id fst (write_chunks (filter is_MTrk cs) b)"
      using False by (simp only: filter.simps if_False)
    also have "\<dots> = map_sum id fst (write_chunks cs b)" by (rule Cons.IH)
    finally show ?thesis using e by (rule trans[OF _ sym])
  qed
qed

lemma saveToDataBuffer_data:
  "map_sum id (data \<circ> fst) (saveToDataBuffer m) =
     map_sum id (\<lambda>b. map ToUint8 (buffer b))
       (map_sum id fst (write_chunks (chunks m)
          (writeUInt16 (case timeDivision m of Some td \<Rightarrow> td | None \<Rightarrow> 0)
             (writeUInt16 (trackCount m) (writeUInt16 (format m)
                (writeUInt32 6 (writeString (str ''MThd'') DataBuffer_new)))))))"
  by (simp add: saveToDataBuffer_def commit_def split: sum.splits prod.splits)

lemma saveToDataBuffer_no_chunks:
  assumes "chunks p = []"
  shows "map_sum id (data \<circ> fst) (saveToDataBuffer p)
           = Inr (MThd_header (format p) (trackCount p) (timeDivision p))"
proof -
  have "MThd_header (format p) (trackCount p)
           (Some (case timeDivision p of Some td \<Rightarrow> td | None \<Rightarrow> 0))
        = MThd_header (format p) (trackCount p) (timeDivision p)"
    by (simp add: MThd_header_def split: option.splits)
  then show ?thesis
    using assms by (simp add: saveToDataBuffer_data header_written(2))
qed

lemmas save_eval =
  saveToDataBuffer_def write_chunks.simps writeChunk_def write_events.simps writeString_def
  writeBytes_def write_at.simps writeUInt16_def writeUInt32_def seek_def advance_def rewind_def
  available_def write_meta_def str_def

text \<open>
  Claim C10. Whenever \<open>saveToDataBuffer\<close> returns, its bytes are the 14 bytes of the
  header, \<open>MThd\<close>, the length 6 and the stored \<open>format\<close>, \<open>trackCount\<close> and
  \<open>timeDivision\<close> as 16-bit values of two bytes, followed by one run of bytes that
  starts with \<open>MTrk\<close> for each chunk whose type is \<open>MTrk\<close> and by nothing else; the
  bytes are those written for the object without its chunks of other types, whose
  \<open>trackCount\<close> is the same. The object that \<open>parse\<close> makes of a file whose first chunk
  after the 14 header bytes is not a track counts one track and is written as the header
  alone: the count 1 in the output, and no \<open>MTrk\<close> chunk.
\<close>

theorem saveToDataBuffer_writes_header_and_MTrk_chunks:
  assumes "saveToDataBuffer m = Inr (out, m')"
  shows "(\<exists>bodies. length bodies = length (filter is_MTrk (chunks m)) \<and>
            data out = MThd_header (format m) (trackCount m) (timeDivision m)
                         @ concat (map (\<lambda>X. [0x4D, 0x54, 0x72, 0x6B] @ X) bodies))
       \<and> map_sum id (data \<circ> fst) (saveToDataBuffer (m\<lparr>chunks := filter is_MTrk (chunks m)\<rparr>))
           = Inr (data out)
       \<and> (\<exists>p. parse (AudioMIDI_from oversized_header_file) = Some (Inr p)
              \<and> trackCount p = 1
              \<and> map_sum id (data \<circ> fst) (saveToDataBuffer p)
                  = Inr [0x4D, 0x54, 0x68, 0x64, 0, 0, 0, 6, 0, 0, 0, 1, 0x01, 0xE0])"
proof (intro conjI)
  define t where "t = (case timeDivision m of Some td \<Rightarrow> td | None \<Rightarrow> 0)"
  define b where "b = writeUInt16 t (writeUInt16 (trackCount m) (writeUInt16 (format m)
                 (writeUInt32 6 (writeString (str ''MThd'') DataBuffer_new))))"
  have h: "at_end b" "map ToUint8 (buffer b) = MThd_header (format m) (trackCount m) (Some t)"
    unfolding b_def by (rule header_written)+
  have ht: "MThd_header (format m) (trackCount m) (Some t)
            = MThd_header (format m) (trackCount m) (timeDivision m)"
    by (simp add: MThd_header_def t_def split: option.splits)
  from assms obtain b' cs where w: "write_chunks (chunks m) b = Inr (b', cs)"
    and o: "out = commit b'"
    by (auto simp: saveToDataBuffer_def b_def t_def split: sum.splits prod.splits)
  from write_chunks_bodies[OF h(1) w] obtain bodies where
    l: "length bodies = length (filter is_MTrk (chunks m))" and
    bb: "buffer b' = buffer b
           @ concat (map (\<lambda>X. [JNum 0x4D, JNum 0x54, JNum 0x72, JNum 0x6B] @ X) bodies)"
    by blast
  have "data out = MThd_header (format m) (trackCount m) (timeDivision m)
           @ concat (map (\<lambda>X. [0x4D, 0x54, 0x72, 0x6B] @ X) (map (map ToUint8) bodies))"
    using h(2) ht by (simp add: o commit_def bb map_concat comp_def ToUint8_def)
  then show "\<exists>bodies. length bodies = length (filter is_MTrk (chunks m)) \<and>
            data out = MThd_header (format m) (trackCount m) (timeDivision m)
                         @ concat (map (\<lambda>X. [0x4D, 0x54, 0x72, 0x6B] @ X) bodies)"
    using l by (intro exI[of _ "map (map ToUint8) bodies"]) simp
  have "map_sum id (data \<circ> fst) (saveToDataBuffer (m\<lparr>chunks := filter is_MTrk (chunks m)\<rparr>))
        = map_sum id (data \<circ> fst) (saveToDataBuffer m)"
    by (simp add: saveToDataBuffer_data write_chunks_filter)
  then show "map_sum id (data \<circ> fst) (saveToDataBuffer (m\<lparr>chunks := filter is_MTrk (chunks m)\<rparr>))
           = Inr (data out)"
    using assms by simp
  have "map_option (map_sum id (\<lambda>p. (format p, trackCount p, timeDivision p, chunks p)))
          (parse (AudioMIDI_from oversized_header_file)) = Some (Inr (0, 1, Some 480, []))"
    by (simp add: parse_eval oversized_header_file_def)
  then obtain p where p: "parse (AudioMIDI_from oversized_header_file) = Some (Inr p)"
    "format p = 0" "trackCount p = 1" "timeDivision p = Some 480" "chunks p = []"
    by (cases "parse (AudioMIDI_from oversized_header_file)") (auto simp: map_sum_def split: sum.splits)
  have "map_sum id (data \<circ> fst) (saveToDataBuffer p)
          = Inr [0x4D, 0x54, 0x68, 0x64, 0, 0, 0, 6, 0, 0, 0, 1, 0x01, 0xE0]"
    using p(2-4) by (simp add: saveToDataBuffer_no_chunks[OF p(5)] MThd_header_def be16_def)
  then show "\<exists>p. parse (AudioMIDI_from oversized_header_file) = Some (Inr p)
              \<and> trackCount p = 1
              \<and> map_sum id (data \<circ> fst) (saveToDataBuffer p)
                  = Inr [0x4D, 0x54, 0x68, 0x64, 0, 0, 0, 6, 0, 0, 0, 1, 0x01, 0xE0]"
    using p(1,3) by blast
qed

theorem saveToDataBuffer_writes_header_and_MTrk_chunks_witness:
  "\<exists>out m'. saveToDataBuffer mixed_chunks_midi = Inr (out, m')
     \<and> data out = [0x4D, 0x54, 0x68, 0x64, 0, 0, 0, 6, 0, 0, 0, 2, 0x01, 0xE0,
                    0x4D, 0x54, 0x72, 0x6B, 0, 0, 0, 8, 0x00, 0x90, 0x3C, 0x64, 0x00, 0xFF, 0x2F, 0x00]
     \<and> (\<exists>bodies. length bodies = 1 \<and>
            data out = MThd_header 0 2 (Some 480)
                         @ concat (map (\<lambda>X. [0x4D, 0x54, 0x72, 0x6B] @ X) bodies))
     \<and> chunks m' = [\<lparr>ctype = str ''XFIH'', chunkLength = 4, events = [end_of_track_event 0]\<rparr>,
         \<lparr>ctype = str ''MTrk'', chunkLength = 8,
          events = [note_on_event 0 0 60 100, end_of_track_event 0]\<rparr>]"
proof -
  have "map_sum id (\<lambda>(out, m'). (data out, chunks m')) (saveToDataBuffer mixed_chunks_midi) =
     Inr ([0x4D, 0x54, 0x68, 0x64, 0, 0, 0, 6, 0, 0, 0, 2, 0x01, 0xE0,
                    0x4D, 0x54, 0x72, 0x6B, 0, 0, 0, 8, 0x00, 0x90, 0x3C, 0x64, 0x00, 0xFF, 0x2F, 0x00],
        [\<lparr>ctype = str ''XFIH'', chunkLength = 4, events = [end_of_track_event 0]\<rparr>,
         \<lparr>ctype = str ''MTrk'', chunkLength = 8,
          events = [note_on_event 0 0 60 100, end_of_track_event 0]\<rparr>])"
    by (simp add: mixed_chunks_midi_def AudioMIDI_from_def save_eval write_eval
        note_on_event_def end_of_track_event_def cong: let_weak_cong prod.case_cong_weak)
  then obtain out m' where s: "saveToDataBuffer mixed_chunks_midi = Inr (out, m')"
    and d: "data out = [0x4D, 0x54, 0x68, 0x64, 0, 0, 0, 6, 0, 0, 0, 2, 0x01, 0xE0,
                    0x4D, 0x54, 0x72, 0x6B, 0, 0, 0, 8, 0x00, 0x90, 0x3C, 0x64, 0x00, 0xFF, 0x2F, 0x00]"
    and c: "chunks m' = [\<lparr>ctype = str ''XFIH'', chunkLength = 4, events = [end_of_track_event 0]\<rparr>,
         \<lparr>ctype = str ''MTrk'', chunkLength = 8,
          events = [note_on_event 0 0 60 100, end_of_track_event 0]\<rparr>]"
    by (cases "saveToDataBuffer mixed_chunks_midi") auto
  from saveToDataBuffer_writes_header_and_MTrk_chunks[OF s] have "\<exists>bodies. length bodies = 1 \<and>
            data out = MThd_header 0 2 (Some 480)
                         @ concat (map (\<lambda>X. [0x4D, 0x54, 0x72, 0x6B] @ X) bodies)"
    by (simp add: mixed_chunks_midi_def AudioMIDI_from_def is_MTrk_def str_def)
  with s d c show ?thesis by blast
qed

section \<open>The length of a note\<close>

lemma and15: "(x::int) AND 15 = x mod 16"
proof -
  have "(x::int) AND mask 4 = x mod 2 ^ 4"
    by (simp only: take_bit_eq_mask[symmetric] take_bit_eq_mod)
  then show ?thesis by (simp add: mask_eq_exp_minus_1)
qed

lemma status_kind:
  assumes "0 \<le> st" "st < 256"
  shows "js_and (js_sar st 4) 0x0F = st div 16" and "js_and st 0x0F = st mod 16"
proof -
  have "ToInt32 st = st" using assms by (intro ToInt32_id) simp_all
  moreover have "ToInt32 (st div 16) = st div 16" using assms by (intro ToInt32_id) simp_all
  moreover have "ToInt32 15 = 15" by (simp add: ToInt32_def)
  moreover have "st div 16 mod 16 = st div 16" using assms by simp
  ultimately show "js_and (js_sar st 4) 0x0F = st div 16" and "js_and st 0x0F = st mod 16"
    by (simp_all add: js_and_def js_sar_def and15)
qed

lemma readUInt8_frame: "readUInt8 b = Inr (x, b') \<Longrightarrow> \<exists>k. b' = b\<lparr>offset := k\<rparr>"
  by (auto simp: readUInt8_def split: if_splits)

lemma rvlv_loop_frame:
  "readVariableLengthValues_loop val b = Inr (x, b') \<Longrightarrow> \<exists>k. b' = b\<lparr>offset := k\<rparr>"
proof (induction val b rule: readVariableLengthValues_loop.induct)
  case (1 val b)
  from "1.prems" obtain byte b1 where r: "readUInt8 b = Inr (byte, b1)"
    by (subst (asm) readVariableLengthValues_loop.simps) (auto split: sum.splits)
  obtain k1 where f1: "b1 = b\<lparr>offset := k1\<rparr>" using readUInt8_frame[OF r] by blast
  show ?case
  proof (cases "js_and byte 0x80 \<noteq> 0 \<and> remainingBytes b1 > 0")
    case True
    then have "readVariableLengthValues_loop (js_shl val 7 + js_and byte 0x7F) b1 = Inr (x, b')"
      using "1.prems" r by (subst (asm) readVariableLengthValues_loop.simps) (simp add: Let_def)
    then obtain k where "b' = b1\<lparr>offset := k\<rparr>"
      using "1.IH"[OF r refl refl True] by blast
    then have "b' = b\<lparr>offset := k\<rparr>" by (simp add: f1)
    then show ?thesis by blast
  next
    case False
    then have "b' = b1"
      using "1.prems" r by (subst (asm) readVariableLengthValues_loop.simps) (auto simp: Let_def)
    then show ?thesis using f1 by blast
  qed
qed

lemma readVariableLengthValues_frame:
  "readVariableLengthValues b = Inr (x, b') \<Longrightarrow> \<exists>k. b' = b\<lparr>offset := k\<rparr>"
  unfolding readVariableLengthValues_def by (rule rvlv_loop_frame)

lemma read_status_frame:
  assumes "read_status s = Inr (Some st, s')"
  shows "\<exists>k. s' = s\<lparr>offset := k, laststatusByte := Some st\<rparr>"
proof -
  from assms obtain byte s1 where r: "readUInt8 s = Inr (byte, s1)"
    by (auto simp: read_status_def split: sum.splits)
  obtain k1 where f1: "s1 = s\<lparr>offset := k1\<rparr>" using readUInt8_frame[OF r] by blast
  show ?thesis
  proof (cases "byte \<ge> 0x80")
    case True
    then have "s' = s1\<lparr>laststatusByte := Some st\<rparr>" using assms r by (auto simp: read_status_def)
    then have "s' = s\<lparr>offset := k1, laststatusByte := Some st\<rparr>" by (simp add: f1)
    then show ?thesis by blast
  next
    case False
    then obtain s2 where w: "rewind 1 s1 = Inr s2" and e: "laststatusByte s1 = Some st" "s' = s2"
      using assms r by (auto simp: read_status_def split: sum.splits)
    have "s2 = s1\<lparr>offset := offset s1 - 1\<rparr>" using w by (auto simp: rewind_def split: if_splits)
    then have 1: "s' = s\<lparr>offset := k1 - 1\<rparr>" using e(2) by (simp add: f1)
    have 2: "laststatusByte s = Some st" using e(1) by (simp add: f1)
    have "s\<lparr>offset := k1 - 1\<rparr> = s\<lparr>offset := k1 - 1, laststatusByte := laststatusByte s\<rparr>"
      by simp
    then have "s' = s\<lparr>offset := k1 - 1, laststatusByte := Some st\<rparr>"
      unfolding 1 2 .
    then show ?thesis by blast
  qed
qed


lemma note_on_event_no_length:
  "get_prop (edata (note_on_event dt c n v)) ''length'' = JUndefined"
  by (simp add: note_on_event_def get_prop_def)

lemma note_on_event_patched:
  "get_prop (edata (patch_event_length L (note_on_event dt c n v))) ''length'' = JNum L"
  by (simp add: note_on_event_def get_prop_def patch_event_length_def set_prop_def)

lemmas reader_eval =
  readVariableLengthValues_def readVariableLengthValues_loop.simps readUInt8_def available_def
  remainingBytes_def data_at_def read_status_def rewind_def js_shl_def js_and_def js_sar_def
  ToInt32_def Let_def start_parse_def AudioMIDI_from_def

text \<open>
  One round of the event loop that reads a delta time \<open>dt\<close>, a status \<open>st\<close> (read or
  running) and two data bytes \<open>n\<close> and \<open>v\<close>. For a Note On the round appends an event
  that holds \<open>note\<close> and \<open>velocity\<close>, changes no earlier event whatever \<open>v\<close> is, and
  makes the entry of \<open>n\<close> in \<open>activeNotes\<close> the current time and a reference to the
  appended event. For a Note Off with an entry for \<open>n\<close> that refers to an event of the
  track being read, the round sets \<open>length\<close> of that event to the current time minus the
  stored start time, appends a Note Off with the same \<open>length\<close> and removes the entry;
  with no entry it appends a Note Off with \<open>length\<close> 0 and changes nothing else.
\<close>

lemma note_round:
  assumes rd: "readVariableLengthValues s = Inr (dt, s1)"
      and rs: "read_status (s1\<lparr>currentTime := currentTime s1 + dt\<rparr>) = Inr (Some st, s2)"
      and rn: "readUInt8 s2 = Inr (n, s3)"
      and rv: "readUInt8 s3 = Inr (v, s4)"
  shows "(0x90 \<le> st \<and> st \<le> 0x9F \<longrightarrow>
            parse_event s = Some (Inr (s\<lparr>offset := offset s4, currentTime := currentTime s + dt,
              laststatusByte := Some st,
              activeNotes := (activeNotes s)(n \<mapsto>
                 (currentTime s + dt, v, length (chunks s), length (events (track s)))),
              track := (track s)\<lparr>events :=
                 events (track s) @ [note_on_event dt (st - 0x90) n v]\<rparr>\<rparr>)))
       \<and> (0x80 \<le> st \<and> st \<le> 0x8F \<longrightarrow>
            (case activeNotes s n of
               None \<Rightarrow>
                 parse_event s = Some (Inr (s\<lparr>offset := offset s4,
                   currentTime := currentTime s + dt, laststatusByte := Some st,
                   track := (track s)\<lparr>events :=
                      events (track s) @ [note_off_event dt (st - 0x80) n v 0]\<rparr>\<rparr>))
             | Some (t0, v0, ti, ei) \<Rightarrow>
                 ti = length (chunks s) \<longrightarrow>
                 parse_event s = Some (Inr (s\<lparr>offset := offset s4,
                   currentTime := currentTime s + dt, laststatusByte := Some st,
                   activeNotes := (activeNotes s)(n := None),
                   track := (track s)\<lparr>events :=
                      (events (track s))[ei := patch_event_length (currentTime s + dt - t0)
                                                 (events (track s) ! ei)]
                      @ [note_off_event dt (st - 0x80) n v (currentTime s + dt - t0)]\<rparr>\<rparr>))))
       \<and> get_prop (edata (note_on_event dt (st - 0x90) n v)) ''length'' = JUndefined
       \<and> (\<forall>L. get_prop (edata (patch_event_length L (note_on_event dt (st - 0x90) n v)))
                 ''length'' = JNum L)"
proof -
  obtain k1 where f1: "s1 = s\<lparr>offset := k1\<rparr>"
    using readVariableLengthValues_frame[OF rd] by blast
  obtain k2 where f2: "s2 = (s1\<lparr>currentTime := currentTime s1 + dt\<rparr>)\<lparr>offset := k2,
                               laststatusByte := Some st\<rparr>"
    using read_status_frame[OF rs] by blast
  obtain k3 where f3: "s3 = s2\<lparr>offset := k3\<rparr>" using readUInt8_frame[OF rn] by blast
  obtain k4 where f4: "s4 = s3\<lparr>offset := k4\<rparr>" using readUInt8_frame[OF rv] by blast
  have S4: "s4 = s\<lparr>offset := k4, currentTime := currentTime s + dt, laststatusByte := Some st\<rparr>"
    by (simp add: f1 f2 f3 f4)
  have o4: "offset s4 = k4" by (simp add: S4)
  have on: "parse_event s = Some (Inr (s\<lparr>offset := offset s4, currentTime := currentTime s + dt,
              laststatusByte := Some st,
              activeNotes := (activeNotes s)(n \<mapsto>
                 (currentTime s + dt, v, length (chunks s), length (events (track s)))),
              track := (track s)\<lparr>events :=
                 events (track s) @ [note_on_event dt (st - 0x90) n v]\<rparr>\<rparr>))"
    if r: "0x90 \<le> st" "st \<le> 0x9F"
  proof -
    have "st div 16 = 9" "st mod 16 = st - 0x90" using r by presburger+
    then have k: "js_and (js_sar st 4) 0x0F = 9" "js_and st 0x0F = st - 0x90"
      using r status_kind[of st] by simp_all
    have pc: "parse_channel (Some st) ev s2 =
        Inr (ev\<lparr>type := Some st, channel := Some (st - 0x90),
                edata := JObj [(''note'', JNum n), (''velocity'', JNum v)],
                label := Some (str ''Note On'')\<rparr>,
             s4\<lparr>activeNotes := (activeNotes s4)(n \<mapsto>
                 (currentTime s4, v, length (chunks s4), length (events (track s4))))\<rparr>)" for ev
      by (simp add: parse_channel_def Let_def k note_on_def read_then_def rn rv)
    show ?thesis
      using r by (simp add: parse_event_def rd rs Let_def pc note_on_event_def empty_event_def)
        (simp add: S4)
  qed
  have k8: "js_and (js_sar st 4) 0x0F = 8" "js_and st 0x0F = st - 0x80"
    if r: "0x80 \<le> st" "st \<le> 0x8F"
  proof -
    have "st div 16 = 8" "st mod 16 = st - 0x80" using r by presburger+
    then show "js_and (js_sar st 4) 0x0F = 8" "js_and st 0x0F = st - 0x80"
      using r status_kind[of st] by simp_all
  qed
  have off0: "parse_event s = Some (Inr (s\<lparr>offset := offset s4,
                   currentTime := currentTime s + dt, laststatusByte := Some st,
                   track := (track s)\<lparr>events :=
                      events (track s) @ [note_off_event dt (st - 0x80) n v 0]\<rparr>\<rparr>))"
    if r: "0x80 \<le> st" "st \<le> 0x8F" and a: "activeNotes s n = None"
  proof -
    have a4: "activeNotes s4 n = None" using a by (simp add: S4)
    have pc: "parse_channel (Some st) ev s2 =
        Inr (ev\<lparr>type := Some st, channel := Some (st - 0x80),
                edata := JObj [(''note'', JStr (int_to_string n)), (''velocity'', JNum v),
                               (''length'', JNum 0)],
                label := Some (str ''Note Off'')\<rparr>, s4)" for ev
      by (simp add: parse_channel_def Let_def k8[OF r] note_off_def read_then_def rn rv a4)
    show ?thesis
      using r by (simp add: parse_event_def rd rs Let_def pc note_off_event_def empty_event_def)
        (simp add: S4)
  qed
  have off1: "parse_event s = Some (Inr (s\<lparr>offset := offset s4,
                   currentTime := currentTime s + dt, laststatusByte := Some st,
                   activeNotes := (activeNotes s)(n := None),
                   track := (track s)\<lparr>events :=
                      (events (track s))[ei := patch_event_length (currentTime s + dt - t0)
                                                 (events (track s) ! ei)]
                      @ [note_off_event dt (st - 0x80) n v (currentTime s + dt - t0)]\<rparr>\<rparr>))"
    if r: "0x80 \<le> st" "st \<le> 0x8F" and a: "activeNotes s n = Some (t0, v0, length (chunks s), ei)"
    for t0 v0 ei
  proof -
    have a4: "activeNotes s4 n = Some (t0, v0, length (chunks s4), ei)" using a by (simp add: S4)
    have pc: "parse_channel (Some st) ev s2 =
        Inr (ev\<lparr>type := Some st, channel := Some (st - 0x80),
                edata := JObj [(''note'', JStr (int_to_string n)), (''velocity'', JNum v),
                               (''length'', JNum (currentTime s4 - t0))],
                label := Some (str ''Note Off'')\<rparr>,
             s4\<lparr>activeNotes := (activeNotes s4)(n := None),
                track := (track s4)\<lparr>events :=
                   (events (track s4))[ei := patch_event_length (currentTime s4 - t0)
                                                 (events (track s4) ! ei)]\<rparr>\<rparr>)" for ev
      by (simp add: parse_channel_def Let_def k8[OF r] note_off_def read_then_def rn rv a4
          patch_length_def)
    show ?thesis
      using r by (simp add: parse_event_def rd rs Let_def pc note_off_event_def empty_event_def)
        (simp add: S4)
  qed
  show ?thesis
    using on off0 off1
    by (auto simp: note_on_event_no_length note_on_event_patched split: option.splits)
qed


lemma note_round_example:
  "\<exists>s' s''. parse_event note_pair_state = Some (Inr s') \<and> parse_event s' = Some (Inr s'')
     \<and> events (track s') = [note_on_event 0 0 60 100]
     \<and> activeNotes s' 60 = Some (0, 100, 0, 0)
     \<and> map edata (events (track s'')) =
         [JObj [(''note'', JNum 60), (''velocity'', JNum 100), (''length'', JNum 240)],
          JObj [(''note'', JStr (str ''60'')), (''velocity'', JNum 0), (''length'', JNum 240)]]
     \<and> activeNotes s'' 60 = None"
proof -
  define s0 where "s0 = note_pair_state"
  define s1 where "s1 = s0\<lparr>offset := 26, currentTime := 0, laststatusByte := Some 0x90,
      activeNotes := (activeNotes s0)(60 \<mapsto> (0, 100, 0, 0)),
      track := (track s0)\<lparr>events := [note_on_event 0 0 60 100]\<rparr>\<rparr>"
  define s2 where "s2 = s1\<lparr>offset := 31, currentTime := 240, laststatusByte := Some 0x80,
      activeNotes := (activeNotes s1)(60 := None),
      track := (track s1)\<lparr>events := [patch_event_length 240 (note_on_event 0 0 60 100),
                                        note_off_event 240 0 60 0 240]\<rparr>\<rparr>"
  have r1: "parse_event s0 = Some (Inr s1)"
    using note_round[of s0 0 "s0\<lparr>offset := 23\<rparr>" "0x90"
        "s0\<lparr>offset := 24, laststatusByte := Some 0x90\<rparr>" 60
        "s0\<lparr>offset := 25, laststatusByte := Some 0x90\<rparr>" 100
        "s0\<lparr>offset := 26, laststatusByte := Some 0x90\<rparr>"]
    by (simp add: s0_def s1_def note_pair_state_def note_pair_file_def reader_eval)
  have r2: "parse_event s1 = Some (Inr s2)"
    using note_round[of s1 240 "s1\<lparr>offset := 28\<rparr>" "0x80"
        "s1\<lparr>offset := 29, currentTime := 240, laststatusByte := Some 0x80\<rparr>" 60
        "s1\<lparr>offset := 30, currentTime := 240, laststatusByte := Some 0x80\<rparr>" 0
        "s1\<lparr>offset := 31, currentTime := 240, laststatusByte := Some 0x80\<rparr>"]
    by (simp add: s0_def s1_def s2_def note_pair_state_def note_pair_file_def reader_eval)
  have "events (track s1) = [note_on_event 0 0 60 100]" "activeNotes s1 60 = Some (0, 100, 0, 0)"
    by (simp_all add: s1_def)
  moreover have "map edata (events (track s2)) =
         [JObj [(''note'', JNum 60), (''velocity'', JNum 100), (''length'', JNum 240)],
          JObj [(''note'', JStr (str ''60'')), (''velocity'', JNum 0), (''length'', JNum 240)]]"
    "activeNotes s2 60 = None"
    by (simp_all add: s2_def patch_event_length_def note_on_event_def note_off_event_def
        set_prop_def int_to_string_def nat_digits.simps str_def)
  ultimately have "parse_event note_pair_state = Some (Inr s1) \<and> parse_event s1 = Some (Inr s2)
     \<and> events (track s1) = [note_on_event 0 0 60 100]
     \<and> activeNotes s1 60 = Some (0, 100, 0, 0)
     \<and> map edata (events (track s2)) =
         [JObj [(''note'', JNum 60), (''velocity'', JNum 100), (''length'', JNum 240)],
          JObj [(''note'', JStr (str ''60'')), (''velocity'', JNum 0), (''length'', JNum 240)]]
     \<and> activeNotes s2 60 = None"
    using r1[unfolded s0_def] r2 by (intro conjI)
  then show ?thesis by (intro exI[of _ s1] exI[of _ s2])
qed

text \<open>
  Claim C5 is right and the code is wrong. The type \<open>NoteData\<close> of the source gives the
  data of a note event a \<open>length\<close>, a number, and the Note Off case of \<open>parse\<close> writes
  \<open>length: 0\<close> when it finds no Note On; \<open>validate\<close> and its comment take a Note On with
  the velocity 0 for a Note Off. But the Note On case of \<open>parse\<close> builds the data from
  \<open>note\<close> and \<open>velocity\<close> alone and never looks the note up: after a Note On for 60 at
  tick 0 and a Note On for 60 with the velocity 0 at tick 240 neither event has a
  \<open>length\<close>, where the claim has 240 for the first and 0 for the second. When the second
  event is a Note Off, the first does get the \<open>length\<close> 240.
\<close>

theorem note_on_has_no_length_until_note_off:
  "map_option (map_sum id (\<lambda>m. map (\<lambda>c. map edata (events c)) (chunks m)))
     (parse (AudioMIDI_from zero_velocity_file))
   = Some (Inr [[JObj [(''note'', JNum 60), (''velocity'', JNum 100)],
                 JObj [(''note'', JNum 60), (''velocity'', JNum 0)],
                 JStr []]])
   \<and> map_option (map_sum id (\<lambda>m. map (\<lambda>c. map edata (events c)) (chunks m)))
     (parse (AudioMIDI_from note_pair_file))
   = Some (Inr [[JObj [(''note'', JNum 60), (''velocity'', JNum 100), (''length'', JNum 240)],
                 JObj [(''note'', JStr (str ''60'')), (''velocity'', JNum 0),
                       (''length'', JNum 240)],
                 JStr []]])"
  by (simp add: parse_eval zero_velocity_file_def note_pair_file_def patch_length_def
      patch_event_length_def set_prop_def int_to_string_def nat_digits.simps)

end
